theory Spec2Isabelle
  imports Complex_Main "HOL-Library.Sublist" "HOL-Library.AList"
begin

section \<open>Strings as the monitor uses them\<close>

text \<open>
  A Python \<open>str\<close> is modelled as a \<open>string\<close> (a list of \<open>char\<close>). The alphabet of the
  model is ASCII: \<open>str.lower\<close>, \<open>str.strip\<close>, \<open>str.isdigit\<close> and \<open>int\<close> are given for
  ASCII letters, blanks and digits, which is what \<open>ps\<close> and \<open>pgrep\<close> print for
  process identifiers and what a target on the command line holds.
\<close>

definition is_space :: "char \<Rightarrow> bool" where
  \<comment> \<open>the ASCII characters for which \<open>str.isspace\<close> holds\<close>
  "is_space c = (c \<in> set [CHR '' '', CHR 0x09, CHR 0x0A, CHR 0x0B, CHR 0x0C, CHR 0x0D,
                           CHR 0x1C, CHR 0x1D, CHR 0x1E, CHR 0x1F])"

definition strip :: "string \<Rightarrow> string" where
  \<comment> \<open>\<open>s.strip()\<close>: blanks removed at both ends\<close>
  "strip s = rev (dropWhile is_space (rev (dropWhile is_space s)))"

definition lower_char :: "char \<Rightarrow> char" where
  "lower_char c =
     (case map_of (zip ''ABCDEFGHIJKLMNOPQRSTUVWXYZ'' ''abcdefghijklmnopqrstuvwxyz'') c of
        Some l \<Rightarrow> l
      | None \<Rightarrow> c)"

definition lower :: "string \<Rightarrow> string" where
  \<comment> \<open>\<open>s.lower()\<close>\<close>
  "lower s = map lower_char s"

definition endswith :: "string \<Rightarrow> string \<Rightarrow> bool" where
  \<comment> \<open>\<open>s.endswith(suf)\<close>\<close>
  "endswith s suf = (length suf \<le> length s \<and> drop (length s - length suf) s = suf)"

definition is_digit :: "char \<Rightarrow> bool" where
  "is_digit c = (c \<in> set ''0123456789'')"

definition isdigit :: "string \<Rightarrow> bool" where
  \<comment> \<open>\<open>s.isdigit()\<close>: at least one character, and every character a digit\<close>
  "isdigit s = (s \<noteq> [] \<and> list_all is_digit s)"

definition digit_val :: "char \<Rightarrow> nat" where
  "digit_val c = (case map_of (zip ''0123456789'' [0, 1, 2, 3, 4, 5, 6, 7, 8, 9]) c of
                    Some d \<Rightarrow> d
                  | None \<Rightarrow> 0)"

fun digits_val :: "nat \<Rightarrow> string \<Rightarrow> nat" where
  "digits_val acc [] = acc"
| "digits_val acc (c # cs) = digits_val (10 * acc + digit_val c) cs"

fun int_body_ok :: "string \<Rightarrow> bool" where
  \<comment> \<open>digits, with single underscores allowed between two digits\<close>
  "int_body_ok [] = False"
| "int_body_ok [c] = is_digit c"
| "int_body_ok (c # d # r) =
     (is_digit c \<and> (if d = CHR ''_'' then int_body_ok r else int_body_ok (d # r)))"

definition py_int :: "string \<Rightarrow> int option" where
  \<comment> \<open>\<open>int(s)\<close> for a string: \<open>None\<close> stands for \<open>ValueError\<close>\<close>
  "py_int s =
     (let t = strip s;
          neg = (t \<noteq> [] \<and> hd t = CHR ''-'');
          body = (if t \<noteq> [] \<and> (hd t = CHR ''-'' \<or> hd t = CHR ''+'') then tl t else t)
      in if int_body_ok body
         then Some ((if neg then - 1 else 1) *
                    int (digits_val 0 (filter (\<lambda>c. c \<noteq> CHR ''_'') body)))
         else None)"

section \<open>Target resolution\<close>

text \<open>
  \<open>subprocess.run\<close> either raises (a timeout, a missing tool) or returns a completed
  process with a return code and the captured standard output.
\<close>

datatype proc_error = TimeoutExpired | OtherError

record completed_process =
  returncode :: int
  stdout :: string

type_synonym run_result = "proc_error + completed_process"

definition verify_process_executable :: "(int \<Rightarrow> run_result) \<Rightarrow> int \<Rightarrow> string \<Rightarrow> bool" where
  \<comment> \<open>\<open>run_ps pid\<close> is the outcome of \<open>ps -p pid -o comm=\<close>\<close>
  "verify_process_executable run_ps pid process_name =
     (case run_ps pid of
        Inl e \<Rightarrow> False
      | Inr result \<Rightarrow>
          if returncode result = 0 \<and> strip (stdout result) \<noteq> []
          then (let comm = strip (stdout result)
                in if lower comm = lower process_name then True
                   else if endswith comm (CHR ''/'' # process_name)
                           \<or> endswith comm (CHR 0x5C # process_name) then True
                   else False)
          else False)"

definition split_on :: "char \<Rightarrow> string \<Rightarrow> string list" where
  \<comment> \<open>\<open>s.split(c)\<close> for a one-character separator: always at least one piece\<close>
  "split_on c s =
     (let (cur, done) =
            fold (\<lambda>x (cur, done). if x = c then ([], done @ [cur]) else (cur @ [x], done))
                 s ([], [])
      in done @ [cur])"

definition verified_pids :: "(int \<Rightarrow> run_result) \<Rightarrow> string \<Rightarrow> string list \<Rightarrow> int list" where
  \<comment> \<open>the loop over the lines of \<open>pgrep\<close>; \<open>int\<close> of a line of digits is its decimal value\<close>
  "verified_pids run_ps process_name pids =
     map (\<lambda>l. int (digits_val 0 l))
       (filter (\<lambda>l. isdigit l \<and>
                     verify_process_executable run_ps (int (digits_val 0 l)) process_name)
               pids)"

definition find_process_by_name ::
  "(string \<Rightarrow> run_result) \<Rightarrow> (string \<Rightarrow> run_result) \<Rightarrow> (int \<Rightarrow> run_result) \<Rightarrow> string
     \<Rightarrow> int list" where
  \<comment> \<open>\<open>run_x n\<close> is the outcome of \<open>pgrep -x n\<close>, \<open>run_f n\<close> that of \<open>pgrep -f ^n\<close>;
      an exception of either gives the empty list\<close>
  "find_process_by_name run_x run_f run_ps process_name =
     (case run_x process_name of
        Inl e \<Rightarrow> []
      | Inr result \<Rightarrow>
          if returncode result = 0 \<and> strip (stdout result) \<noteq> []
          then verified_pids run_ps process_name (split_on (CHR 0x0A) (strip (stdout result)))
          else (case run_f process_name of
                  Inl e \<Rightarrow> []
                | Inr result2 \<Rightarrow>
                    if returncode result2 = 0 \<and> strip (stdout result2) \<noteq> []
                    then verified_pids run_ps process_name
                           (split_on (CHR 0x0A) (strip (stdout result2)))
                    else []))"

definition is_pid :: "string \<Rightarrow> bool" where
  \<comment> \<open>\<open>int(target)\<close> does not raise \<open>ValueError\<close>\<close>
  "is_pid tgt = (py_int tgt \<noteq> None)"

section \<open>Samples\<close>

text \<open>
  The value of a field of a sample is a number, a string or, after a load, whatever the
  data file held: the values of JSON. A Python float is modelled as a real number.
\<close>

datatype json =
    JNull
  | JBool bool
  | JInt int
  | JFloat real
  | JStr string
  | JArr "json list"
  | JObj "(string \<times> json) list"

text \<open>
  A \<open>datetime\<close> is naive (\<open>utcoffset\<close> is \<open>None\<close>, as for \<open>datetime.now()\<close>) or aware, with
  its offset from UTC in microseconds.
\<close>

record datetime =
  year :: nat
  month :: nat
  day :: nat
  hour :: nat
  minute :: nat
  second :: nat
  microsecond :: nat
  utcoffset :: "int option"

record sample =
  timestamp :: datetime
  target :: json
  target_name :: json
  pid :: json
  cpu_percent :: json
  memory_percent :: json
  memory_mb :: json
  rss_kb :: json
  vsz_kb :: json
  command :: json
  args :: json
  system_load :: json
  system_mem_available_mb :: json
  fd_count :: "json option"
  thread_count :: "json option"

record process_info =
  pi_pid :: int
  pi_ppid :: int
  pi_cpu_percent :: real
  pi_memory_percent :: real
  pi_rss_kb :: int
  pi_vsz_kb :: int
  pi_etime :: string
  pi_comm :: string
  pi_args :: string

record system_info =
  load_1min :: real
  load_5min :: real
  load_15min :: real
  mem_total_kb :: int
  mem_available_kb :: int
  mem_free_kb :: int

record monitor_config =
  cfg_cpu_percent :: bool
  cfg_memory_percent :: bool
  cfg_memory_mb :: bool
  cfg_file_descriptors :: bool
  cfg_thread_count :: bool

text \<open>
  What one collection for one target observes of the operating system: the clock, the
  outcomes of the \<open>pgrep\<close> and \<open>ps\<close> queries, and the values that \<open>get_system_info\<close>,
  \<open>get_file_descriptors_info\<close> and \<open>get_thread_count_info\<close> return. \<open>py_float\<close> is Python's
  \<open>float\<close> on a string (\<open>None\<close> for \<open>ValueError\<close>). \<open>raises\<close> holds when a call inside
  \<open>collect_data_for_target\<close> raises an exception that its callee did not absorb.
\<close>

record world =
  now :: datetime
  pgrep_x :: "string \<Rightarrow> run_result"
  pgrep_f :: "string \<Rightarrow> run_result"
  ps_comm :: "int \<Rightarrow> run_result"
  ps_info :: "int \<Rightarrow> run_result"
  py_float :: "string \<Rightarrow> real option"
  get_system_info :: "system_info option"
  get_file_descriptors_info :: "int \<Rightarrow> int"
  get_thread_count_info :: "int \<Rightarrow> int"
  raises :: bool

definition split_ws :: "string \<Rightarrow> string list" where
  \<comment> \<open>\<open>s.split()\<close>: the pieces between runs of blanks, none of them empty\<close>
  "split_ws s =
     filter (\<lambda>p. p \<noteq> [])
       (let (cur, done) =
              fold (\<lambda>x (cur, done). if is_space x then ([], done @ [cur]) else (cur @ [x], done))
                   s ([], [])
        in done @ [cur])"

fun join_space :: "string list \<Rightarrow> string" where
  \<comment> \<open>\<open>' '.join(xs)\<close>\<close>
  "join_space [] = []"
| "join_space [x] = x"
| "join_space (x # y # r) = x @ '' '' @ join_space (y # r)"

definition get_process_info :: "world \<Rightarrow> int \<Rightarrow> process_info option" where
  \<comment> \<open>\<open>ps_info w p\<close> is the outcome of \<open>ps -p p -o pid,ppid,pcpu,pmem,rss,vsz,etime,comm,args\<close>.
      \<open>None\<close> is returned for an absent process, after a timeout or another exception
      (also of \<open>int\<close> and \<open>float\<close>), and when the output has no second line or fewer than
      eight columns\<close>
  "get_process_info w p =
     (case ps_info w p of
        Inl e \<Rightarrow> None
      | Inr result \<Rightarrow>
          if returncode result = 0 \<and> strip (stdout result) \<noteq> []
          then (let lines = split_on (CHR 0x0A) (strip (stdout result))
                in if length lines \<ge> 2
                   then (let parts = split_ws (lines ! 1)
                         in if length parts \<ge> 8
                            then Option.bind (py_int (parts ! 0)) (\<lambda>v_pid.
                                 Option.bind (py_int (parts ! 1)) (\<lambda>v_ppid.
                                 Option.bind (py_float w (parts ! 2)) (\<lambda>v_cpu.
                                 Option.bind (py_float w (parts ! 3)) (\<lambda>v_mem.
                                 Option.bind (py_int (parts ! 4)) (\<lambda>v_rss.
                                 Option.bind (py_int (parts ! 5)) (\<lambda>v_vsz.
                                   Some \<lparr>pi_pid = v_pid, pi_ppid = v_ppid,
                                         pi_cpu_percent = v_cpu, pi_memory_percent = v_mem,
                                         pi_rss_kb = v_rss, pi_vsz_kb = v_vsz,
                                         pi_etime = parts ! 6, pi_comm = parts ! 7,
                                         pi_args = (if length parts > 8
                                                    then join_space (drop 8 parts)
                                                    else parts ! 7)\<rparr>))))))
                            else None)
                   else None)
          else None)"

definition digit_char :: "nat \<Rightarrow> char" where
  "digit_char d = ''0123456789'' ! d"

fun str_nat :: "nat \<Rightarrow> string" where
  "str_nat n = (if n < 10 then [digit_char n] else str_nat (n div 10) @ [digit_char (n mod 10)])"

definition str_int :: "int \<Rightarrow> string" where
  \<comment> \<open>\<open>str(i)\<close>\<close>
  "str_int i = (if i < 0 then CHR ''-'' # str_nat (nat (- i)) else str_nat (nat i))"

definition create_zero_data ::
  "monitor_config \<Rightarrow> world \<Rightarrow> string \<Rightarrow> string \<Rightarrow> int option \<Rightarrow> sample" where
  "create_zero_data cfg w tgt tgt_name p =
     \<lparr>timestamp = now w,
      target = JStr tgt,
      target_name = JStr tgt_name,
      pid = JInt (case p of Some n \<Rightarrow> n | None \<Rightarrow> 0),
      cpu_percent = JFloat 0,
      memory_percent = JFloat 0,
      memory_mb = JFloat 0,
      rss_kb = JInt 0,
      vsz_kb = JInt 0,
      command = JStr [],
      args = JStr [],
      system_load = JFloat (case get_system_info w of Some si \<Rightarrow> load_1min si | None \<Rightarrow> 0),
      system_mem_available_mb =
        JFloat (case get_system_info w of
                  Some si \<Rightarrow> real_of_int (mem_available_kb si) / 1024
                | None \<Rightarrow> 0),
      fd_count = (if cfg_file_descriptors cfg then Some (JInt 0) else None),
      thread_count = (if cfg_thread_count cfg then Some (JInt 0) else None)\<rparr>"

definition collected_data ::
  "monitor_config \<Rightarrow> world \<Rightarrow> string \<Rightarrow> string \<Rightarrow> int \<Rightarrow> process_info \<Rightarrow> sample" where
  \<comment> \<open>the sample \<open>collect_data_for_target\<close> builds once the process is found\<close>
  "collected_data cfg w tgt tgt_name p info =
     \<lparr>timestamp = now w,
      target = JStr tgt,
      target_name = JStr tgt_name,
      pid = JInt p,
      cpu_percent = JFloat (pi_cpu_percent info),
      memory_percent = JFloat (pi_memory_percent info),
      memory_mb = JFloat (real_of_int (pi_rss_kb info) / 1024),
      rss_kb = JInt (pi_rss_kb info),
      vsz_kb = JInt (pi_vsz_kb info),
      command = JStr (pi_comm info),
      args = JStr (pi_args info),
      system_load = JFloat (case get_system_info w of Some si \<Rightarrow> load_1min si | None \<Rightarrow> 0),
      system_mem_available_mb =
        JFloat (case get_system_info w of
                  Some si \<Rightarrow> real_of_int (mem_available_kb si) / 1024
                | None \<Rightarrow> 0),
      fd_count = (if cfg_file_descriptors cfg
                  then Some (JInt (get_file_descriptors_info w p)) else None),
      thread_count = (if cfg_thread_count cfg
                      then Some (JInt (get_thread_count_info w p)) else None)\<rparr>"

definition collect_data_for_target :: "monitor_config \<Rightarrow> world \<Rightarrow> string \<Rightarrow> sample option" where
  \<comment> \<open>\<open>None\<close> is the result of the \<open>except Exception\<close> branch\<close>
  "collect_data_for_target cfg w tgt =
     (if raises w then None
      else case py_int tgt of \<comment> \<open>\<open>if self.is_pid(target): pid = int(target)\<close>\<close>
        Some p \<Rightarrow>
          (case get_process_info w p of
             None \<Rightarrow> Some (create_zero_data cfg w tgt (''PID_'' @ str_int p) (Some p))
           | Some info \<Rightarrow> Some (collected_data cfg w tgt (''PID_'' @ str_int p) p info))
      | None \<Rightarrow>
          (case find_process_by_name (pgrep_x w) (pgrep_f w) (ps_comm w) tgt of
             [] \<Rightarrow> Some (create_zero_data cfg w tgt tgt None)
           | p # rest \<Rightarrow>
               (case get_process_info w p of
                  None \<Rightarrow> Some (create_zero_data cfg w tgt tgt (Some p))
                | Some info \<Rightarrow> Some (collected_data cfg w tgt tgt p info))))"

definition sample_for_target :: "monitor_config \<Rightarrow> world \<Rightarrow> string \<Rightarrow> sample" where
  \<comment> \<open>the body of the loop of \<open>collect_all_data\<close>: the collected sample, or zero data\<close>
  "sample_for_target cfg w tgt =
     (case collect_data_for_target cfg w tgt of
        Some d \<Rightarrow> d
      | None \<Rightarrow> create_zero_data cfg w tgt tgt None)"

text \<open>
  A Python \<open>dict\<close> is an association list in insertion order with distinct keys:
  \<open>AList.update\<close> replaces the value of a key in place and appends a new key at the end.
  The \<open>i\<close>-th target of a cycle is collected in the world \<open>ws i\<close>.
\<close>

fun collect_all_data_from ::
  "monitor_config \<Rightarrow> (nat \<Rightarrow> world) \<Rightarrow> nat \<Rightarrow> string list \<Rightarrow> (string \<times> sample) list
     \<Rightarrow> (string \<times> sample) list" where
  "collect_all_data_from cfg ws i [] all_data = all_data"
| "collect_all_data_from cfg ws i (tgt # rest) all_data =
     collect_all_data_from cfg ws (Suc i) rest
       (AList.update tgt (sample_for_target cfg (ws i) tgt) all_data)"

definition collect_all_data ::
  "monitor_config \<Rightarrow> (nat \<Rightarrow> world) \<Rightarrow> string list \<Rightarrow> (string \<times> sample) list" where
  "collect_all_data cfg ws tgts = collect_all_data_from cfg ws 0 tgts []"

section \<open>The data store and the sampling loop\<close>

type_synonym store = "(string \<times> sample list) list"

definition series :: "store \<Rightarrow> string \<Rightarrow> sample list" where
  \<comment> \<open>the list of a target in the \<open>defaultdict(list)\<close>: empty for a target without an entry\<close>
  "series d tgt = (case map_of d tgt of Some xs \<Rightarrow> xs | None \<Rightarrow> [])"

definition append_batch :: "store \<Rightarrow> (string \<times> sample) list \<Rightarrow> store" where
  \<comment> \<open>\<open>for target, data in all_data.items(): self.data[target].append(data)\<close>\<close>
  "append_batch d all_data =
     fold (\<lambda>(tgt, s) d'. AList.update tgt (series d' tgt @ [s]) d') all_data d"

text \<open>
  One iteration of the loop observes the worlds of its collections, the clock when it
  checks the duration, and whether \<open>stop_monitoring\<close> had cleared the flag when the loop
  read it. \<open>cycle_began\<close> is the clock at the start of the iteration; the loop never
  reads it, it is here to speak of the time a collection took.
\<close>

record cycle_obs =
  worlds :: "nat \<Rightarrow> world"
  cycle_began :: real
  clock :: real
  stop_requested :: bool

record loop_state =
  ls_data :: store
  ls_monitoring :: bool
  sample_count :: nat
  sleeps :: "real list"

definition duration_reached :: "real option \<Rightarrow> real \<Rightarrow> real \<Rightarrow> bool" where
  \<comment> \<open>\<open>duration and (time.time() - start_time) >= duration\<close>\<close>
  "duration_reached duration start_time t =
     (case duration of None \<Rightarrow> False | Some d \<Rightarrow> d \<noteq> 0 \<and> t - start_time \<ge> d)"

definition cycle_body :: "monitor_config \<Rightarrow> string list \<Rightarrow> cycle_obs \<Rightarrow> loop_state \<Rightarrow> loop_state" where
  \<comment> \<open>collection and the append under the lock; the display is not modelled\<close>
  "cycle_body cfg tgts c st =
     (let all_data = collect_all_data cfg (worlds c) tgts
      in if all_data \<noteq> []
         then st\<lparr>ls_data := append_batch (ls_data st) all_data,
                 sample_count := Suc (sample_count st)\<rparr>
         else st)"

fun monitor_loop ::
  "monitor_config \<Rightarrow> string list \<Rightarrow> real \<Rightarrow> real option \<Rightarrow> real \<Rightarrow> cycle_obs list
     \<Rightarrow> loop_state \<Rightarrow> loop_state" where
  \<comment> \<open>the \<open>while self.monitoring\<close> loop along the observations of its iterations; each
      \<open>time.sleep(x)\<close> is recorded in \<open>sleeps\<close>\<close>
  "monitor_loop cfg tgts interval duration start_time [] st = st"
| "monitor_loop cfg tgts interval duration start_time (c # cs) st =
     (if stop_requested c \<or> \<not> ls_monitoring st then st\<lparr>ls_monitoring := False\<rparr>
      else let st1 = cycle_body cfg tgts c st
           in if duration_reached duration start_time (clock c)
              then st1\<lparr>ls_monitoring := False\<rparr>
              else monitor_loop cfg tgts interval duration start_time cs
                     (st1\<lparr>sleeps := sleeps st1 @ [interval]\<rparr>))"

definition start_monitoring :: "loop_state" where
  \<comment> \<open>the state in which \<open>start_monitoring\<close> starts the loop\<close>
  "start_monitoring = \<lparr>ls_data = [], ls_monitoring = True, sample_count = 0, sleeps = []\<rparr>"

section \<open>The data store with its lists held by reference\<close>

text \<open>
  In Python the value of a key of \<open>self.data\<close> is a reference to a list object, and
  \<open>append\<close> changes that object in place. Where the sharing of list objects matters the
  store is a heap of list objects together with the mapping from targets to references.
  \<open>store_of\<close> reads the heap back into the store of the previous section.
\<close>

type_synonym ref = nat

record heap_store =
  lists :: "ref \<Rightarrow> sample list"
  next_ref :: ref
  refs :: "(string \<times> ref) list"

definition store_of :: "heap_store \<Rightarrow> store" where
  "store_of h = map (\<lambda>(tgt, r). (tgt, lists h r)) (refs h)"

definition get_data :: "heap_store \<Rightarrow> (string \<times> ref) list" where
  \<comment> \<open>\<open>dict(self.data)\<close>: a new mapping whose values are the same list objects\<close>
  "get_data h = refs h"

definition snapshot_series :: "heap_store \<Rightarrow> (string \<times> ref) list \<Rightarrow> string \<Rightarrow> sample list option" where
  \<comment> \<open>what a reader finds under a target of a snapshot, when it reads in heap \<open>h\<close>\<close>
  "snapshot_series h snap tgt = map_option (lists h) (map_of snap tgt)"

definition append_sample :: "heap_store \<Rightarrow> string \<Rightarrow> sample \<Rightarrow> heap_store" where
  \<comment> \<open>\<open>self.data[target].append(data)\<close> on a \<open>defaultdict(list)\<close>: a missing key gets a new
      empty list first\<close>
  "append_sample h tgt s =
     (case map_of (refs h) tgt of
        Some r \<Rightarrow> h\<lparr>lists := (lists h)(r := lists h r @ [s])\<rparr>
      | None \<Rightarrow>
          h\<lparr>lists := (lists h)(next_ref h := [s]),
            next_ref := Suc (next_ref h),
            refs := AList.update tgt (next_ref h) (refs h)\<rparr>)"

definition append_batch_refs :: "heap_store \<Rightarrow> (string \<times> sample) list \<Rightarrow> heap_store" where
  \<comment> \<open>the append of a cycle, on the heap\<close>
  "append_batch_refs h all_data = fold (\<lambda>(tgt, s) h'. append_sample h' tgt s) all_data h"

definition heap_ok :: "heap_store \<Rightarrow> bool" where
  \<comment> \<open>every target has a list object of its own, allocated below \<open>next_ref\<close>\<close>
  "heap_ok h = (distinct (map fst (refs h)) \<and> distinct (map snd (refs h))
                \<and> list_all (\<lambda>r. r < next_ref h) (map snd (refs h)))"

section \<open>Timestamps\<close>

text \<open>
  The exceptions of the model.
\<close>

datatype py_error =
    StatisticsError
  | IndexError
  | EmptySequence
  | InvalidIsoformat
  | KeyError string
  | TypeError
  | AttributeError
  | IOError

text \<open>
  \<open>isoformat\<close> writes a \<open>datetime\<close> as \<open>YYYY-MM-DDTHH:MM:SS\<close>, followed by \<open>.ffffff\<close> when the
  microsecond is not zero and, for an aware one, by its offset \<open>+HH:MM[:SS[.ffffff]]\<close>.
  \<open>fromisoformat\<close> is the grammar that the documentation of Python 3.7 to 3.10 gives,
  \<open>YYYY-MM-DD[*HH[:MM[:SS[.fff[fff]]]][+HH:MM[:SS[.ffffff]]]]\<close> with any character for
  \<open>*\<close>; \<open>None\<close> stands for \<open>ValueError\<close>. Later versions of Python accept further ISO 8601
  spellings and give the same results on these.
\<close>

definition is_leap :: "nat \<Rightarrow> bool" where
  "is_leap y = (y mod 4 = 0 \<and> (y mod 100 \<noteq> 0 \<or> y mod 400 = 0))"

definition days_in_month :: "nat \<Rightarrow> nat \<Rightarrow> nat" where
  "days_in_month y m =
     (if m = 2 then (if is_leap y then 29 else 28)
      else if m = 4 \<or> m = 6 \<or> m = 9 \<or> m = 11 then 30 else 31)"

definition valid_datetime :: "datetime \<Rightarrow> bool" where
  \<comment> \<open>the ranges a Python \<open>datetime\<close> keeps; an offset lies strictly within a day\<close>
  "valid_datetime d =
     (1 \<le> year d \<and> year d \<le> 9999 \<and> 1 \<le> month d \<and> month d \<le> 12
      \<and> 1 \<le> day d \<and> day d \<le> days_in_month (year d) (month d)
      \<and> hour d < 24 \<and> minute d < 60 \<and> second d < 60 \<and> microsecond d < 1000000
      \<and> (case utcoffset d of
            None \<Rightarrow> True
          | Some off \<Rightarrow> - 86400000000 < off \<and> off < 86400000000))"

definition pad2 :: "nat \<Rightarrow> string" where
  "pad2 n = [digit_char (n div 10 mod 10), digit_char (n mod 10)]"

definition pad4 :: "nat \<Rightarrow> string" where
  "pad4 n = [digit_char (n div 1000 mod 10), digit_char (n div 100 mod 10),
             digit_char (n div 10 mod 10), digit_char (n mod 10)]"

definition pad6 :: "nat \<Rightarrow> string" where
  "pad6 n = [digit_char (n div 100000 mod 10), digit_char (n div 10000 mod 10),
             digit_char (n div 1000 mod 10), digit_char (n div 100 mod 10),
             digit_char (n div 10 mod 10), digit_char (n mod 10)]"

definition iso_date :: "datetime \<Rightarrow> string" where
  "iso_date d = pad4 (year d) @ ''-'' @ pad2 (month d) @ ''-'' @ pad2 (day d)"

definition iso_time :: "datetime \<Rightarrow> string" where
  "iso_time d =
     pad2 (hour d) @ '':'' @ pad2 (minute d) @ '':'' @ pad2 (second d)
       @ (if microsecond d \<noteq> 0 then ''.'' @ pad6 (microsecond d) else [])"

definition format_offset :: "int \<Rightarrow> string" where
  \<comment> \<open>the offset as \<open>isoformat\<close> writes it: hours and minutes, the seconds when there are
      any, the microseconds when there are any\<close>
  "format_offset off =
     (let a = \<bar>off\<bar>;
          hh = a div 3600000000; r1 = a mod 3600000000;
          mm = r1 div 60000000; r2 = r1 mod 60000000;
          ss = r2 div 1000000; us = r2 mod 1000000
      in (if off < 0 then ''-'' else ''+'') @ pad2 (nat hh) @ '':'' @ pad2 (nat mm)
           @ (if r2 \<noteq> 0
              then '':'' @ pad2 (nat ss) @ (if us \<noteq> 0 then ''.'' @ pad6 (nat us) else [])
              else []))"

definition isoformat :: "datetime \<Rightarrow> string" where
  "isoformat d =
     iso_date d @ ''T'' @ iso_time d
       @ (case utcoffset d of None \<Rightarrow> [] | Some off \<Rightarrow> format_offset off)"

definition parse_digits :: "string \<Rightarrow> nat option" where
  "parse_digits s = (if list_all is_digit s then Some (digits_val 0 s) else None)"

definition make_datetime ::
  "nat \<Rightarrow> nat \<Rightarrow> nat \<Rightarrow> nat \<Rightarrow> nat \<Rightarrow> nat \<Rightarrow> nat \<Rightarrow> int option \<Rightarrow> datetime option" where
  \<comment> \<open>the constructor: out-of-range fields raise \<open>ValueError\<close>\<close>
  "make_datetime y mo d h mi s us off =
     (let dt = \<lparr>year = y, month = mo, day = d, hour = h, minute = mi, second = s,
                microsecond = us, utcoffset = off\<rparr>
      in if valid_datetime dt then Some dt else None)"

definition parse_date :: "string \<Rightarrow> (nat \<times> nat \<times> nat) option" where
  \<comment> \<open>\<open>YYYY-MM-DD\<close>\<close>
  "parse_date s =
     (if length s = 10 \<and> s ! 4 = CHR ''-'' \<and> s ! 7 = CHR ''-''
      then Option.bind (parse_digits (take 4 s)) (\<lambda>y.
           Option.bind (parse_digits (take 2 (drop 5 s))) (\<lambda>mo.
           Option.bind (parse_digits (take 2 (drop 8 s))) (\<lambda>d. Some (y, mo, d))))
      else None)"

definition parse_hh_mm_ss_ff :: "string \<Rightarrow> (nat \<times> nat \<times> nat \<times> nat) option" where
  \<comment> \<open>\<open>HH[:MM[:SS[.fff[fff]]]]\<close>: the parts that are not written are zero, three digits of a
      fraction are milliseconds\<close>
  "parse_hh_mm_ss_ff s =
     (let n = length s
      in if (n = 2 \<or> n = 5 \<or> n = 8 \<or> n = 12 \<or> n = 15)
            \<and> (n < 5 \<or> s ! 2 = CHR '':'') \<and> (n < 8 \<or> s ! 5 = CHR '':'')
            \<and> (n < 12 \<or> s ! 8 = CHR ''.'')
         then Option.bind (parse_digits (take 2 s)) (\<lambda>h.
              Option.bind (parse_digits (take 2 (drop 3 s))) (\<lambda>mi.
              Option.bind (parse_digits (take 2 (drop 6 s))) (\<lambda>se.
              Option.bind (parse_digits (drop 9 s)) (\<lambda>f.
                Some (h, mi, se, if n = 12 then f * 1000 else f)))))
         else None)"

definition is_sign :: "char \<Rightarrow> bool" where
  "is_sign c = (c = CHR ''+'' \<or> c = CHR ''-'')"

definition parse_offset :: "string \<Rightarrow> int option" where
  \<comment> \<open>\<open>+HH:MM\<close>, \<open>+HH:MM:SS\<close> or \<open>+HH:MM:SS.ffffff\<close>, the sign being \<open>+\<close> or \<open>-\<close>; the value is in
      microseconds\<close>
  "parse_offset z =
     (if length z = 6 \<or> length z = 9 \<or> length z = 16
      then Option.bind (parse_hh_mm_ss_ff (tl z)) (\<lambda>(zh, zm, zs, zus).
             Some ((if hd z = CHR ''-'' then - 1 else 1)
                   * ((int zh * 3600 + int zm * 60 + int zs) * 1000000 + int zus)))
      else None)"

definition fromisoformat :: "string \<Rightarrow> datetime option" where
  "fromisoformat s =
     (if length s < 10 then None
      else Option.bind (parse_date (take 10 s)) (\<lambda>(y, mo, d).
        if length s = 10 then make_datetime y mo d 0 0 0 0 None
        else (let rest = drop 11 s;
                  tpart = takeWhile (\<lambda>c. \<not> is_sign c) rest;
                  zpart = dropWhile (\<lambda>c. \<not> is_sign c) rest
              in Option.bind (parse_hh_mm_ss_ff tpart) (\<lambda>(h, mi, se, us).
                   if zpart = [] then make_datetime y mo d h mi se us None
                   else Option.bind (parse_offset zpart) (\<lambda>off.
                          make_datetime y mo d h mi se us (Some off))))))"

definition days_before_year :: "nat \<Rightarrow> int" where
  "days_before_year y =
     (let p = int y - 1 in p * 365 + p div 4 - p div 100 + p div 400)"

definition days_before_month :: "nat \<Rightarrow> nat \<Rightarrow> int" where
  "days_before_month y m = int (sum_list (map (days_in_month y) [1..<m]))"

definition toordinal :: "datetime \<Rightarrow> int" where
  "toordinal d = days_before_year (year d) + days_before_month (year d) (month d) + int (day d)"

definition naive_seconds_between :: "datetime \<Rightarrow> datetime \<Rightarrow> real" where
  \<comment> \<open>the difference of the two wall clocks, in seconds\<close>
  "naive_seconds_between b a =
     real_of_int ((toordinal b - toordinal a) * 86400
                  + (int (hour b) - int (hour a)) * 3600
                  + (int (minute b) - int (minute a)) * 60
                  + (int (second b) - int (second a)))
     + (real (microsecond b) - real (microsecond a)) / 1000000"

definition total_seconds_between :: "datetime \<Rightarrow> datetime \<Rightarrow> py_error + real" where
  \<comment> \<open>\<open>(b - a).total_seconds()\<close>: the subtraction of a naive and an aware \<open>datetime\<close> raises
      \<open>TypeError\<close>\<close>
  "total_seconds_between b a =
     (case (utcoffset b, utcoffset a) of
        (None, None) \<Rightarrow> Inr (naive_seconds_between b a)
      | (Some ob, Some oa) \<Rightarrow>
          Inr (naive_seconds_between b a - real_of_int (ob - oa) / 1000000)
      | _ \<Rightarrow> Inl TypeError)"

section \<open>Statistics of a series\<close>

definition py_mean :: "real list \<Rightarrow> py_error + real" where
  \<comment> \<open>\<open>statistics.mean\<close>\<close>
  "py_mean xs = (if xs = [] then Inl StatisticsError else Inr (sum_list xs / real (length xs)))"

definition py_max :: "real list \<Rightarrow> py_error + real" where
  \<comment> \<open>\<open>max\<close> of a list: \<open>ValueError\<close> on the empty list\<close>
  "py_max xs = (case xs of [] \<Rightarrow> Inl EmptySequence | x # r \<Rightarrow> Inr (fold max r x))"

definition py_min :: "real list \<Rightarrow> py_error + real" where
  "py_min xs = (case xs of [] \<Rightarrow> Inl EmptySequence | x # r \<Rightarrow> Inr (fold min r x))"

definition py_stdev :: "real list \<Rightarrow> py_error + real" where
  \<comment> \<open>\<open>statistics.stdev\<close>: the sample standard deviation, for two values or more\<close>
  "py_stdev xs =
     (if length xs < 2 then Inl StatisticsError
      else let m = sum_list xs / real (length xs)
           in Inr (sqrt (sum_list (map (\<lambda>x. (x - m)\<^sup>2) xs) / real (length xs - 1))))"

definition py_round2 :: "real \<Rightarrow> real" where
  \<comment> \<open>\<open>round(x, 2)\<close>: to the nearest multiple of a hundredth, a tie to the even one\<close>
  "py_round2 x =
     (let y = x * 100; f = \<lfloor>y\<rfloor>; r = y - of_int f
      in of_int (if r < 1 / 2 then f else if 1 / 2 < r then f + 1
                 else if even f then f else f + 1) / 100)"

definition and_then :: "'e + 'a \<Rightarrow> ('a \<Rightarrow> 'e + 'b) \<Rightarrow> 'e + 'b" where
  \<comment> \<open>evaluation in sequence: an exception of the first step is the outcome\<close>
  "and_then m f = (case m of Inl e \<Rightarrow> Inl e | Inr x \<Rightarrow> f x)"

record stats =
  st_avg :: real
  st_max :: real
  st_min :: real
  st_std :: real
  st_data :: "real list"

definition metric_stats :: "real list \<Rightarrow> py_error + stats" where
  \<comment> \<open>the dictionary \<open>{'avg': ..., 'max': ..., 'min': ..., 'std': ..., 'data': ...}\<close> of one
      metric, its entries evaluated in this order\<close>
  "metric_stats xs =
     and_then (py_mean xs) (\<lambda>m.
     and_then (py_max xs) (\<lambda>mx.
     and_then (py_min xs) (\<lambda>mn.
     and_then (if length xs > 1 then py_stdev xs else Inr 0) (\<lambda>sd.
       Inr \<lparr>st_avg = py_round2 m, st_max = py_round2 mx, st_min = py_round2 mn,
            st_std = py_round2 sd, st_data = xs\<rparr>))))"

section \<open>Analysis of a data file\<close>

text \<open>
  The report template analyses a document in the format of the data file: a mapping
  from a target to its list of sample records, whose timestamp is a text and whose
  metrics are numbers. The metrics of disk, network and context switches are absent
  from a record unless another producer wrote them; \<open>item.get(key, 0)\<close> reads an absent
  one as 0. The spellings that \<open>datetime.fromisoformat\<close> accepts beyond those of
  \<open>isoformat\<close> depend on the version of Python, so the analysis is defined for any such
  function \<open>parse_ts\<close> (\<open>None\<close> for its \<open>ValueError\<close>); \<open>fromisoformat\<close> is one.
\<close>

record item =
  it_timestamp :: string
  it_pid :: int
  it_command :: string
  it_args :: string
  it_cpu_percent :: real
  it_memory_percent :: real
  it_memory_mb :: real
  it_rss_kb :: int
  it_vsz_kb :: int
  it_disk_read_bytes :: "real option"
  it_disk_write_bytes :: "real option"
  it_network_rx_bytes :: "real option"
  it_network_tx_bytes :: "real option"
  it_voluntary_switches :: "real option"
  it_involuntary_switches :: "real option"
  it_thread_count :: "real option"

record analysis =
  an_process_name :: string
  an_pid :: int
  an_command :: string
  an_args :: string
  an_data_points :: nat
  an_test_duration :: real
  an_start_time :: datetime
  an_end_time :: datetime
  an_cpu :: stats
  an_memory_percent :: stats
  an_memory_mb :: stats
  an_rss_kb :: int
  an_vsz_kb :: int
  an_disk_io :: "(stats \<times> stats) option"
  an_network_io :: "(stats \<times> stats) option"
  an_context_switches :: "(stats \<times> stats) option"
  an_thread_count :: "stats option"

definition get0 :: "real option \<Rightarrow> real" where
  \<comment> \<open>\<open>item.get(key, 0)\<close>\<close>
  "get0 v = (case v of Some x \<Rightarrow> x | None \<Rightarrow> 0)"

definition py_any :: "real list \<Rightarrow> bool" where
  \<comment> \<open>\<open>any(values)\<close>: a number is true when it is not zero\<close>
  "py_any xs = list_ex (\<lambda>x. x \<noteq> 0) xs"

fun parse_timestamps ::
  "(string \<Rightarrow> datetime option) \<Rightarrow> item list \<Rightarrow> py_error + datetime list" where
  \<comment> \<open>\<open>[datetime.fromisoformat(item['timestamp']) for item in process_data]\<close>\<close>
  "parse_timestamps parse_ts [] = Inr []"
| "parse_timestamps parse_ts (i # rest) =
     (case parse_ts (it_timestamp i) of
        None \<Rightarrow> Inl InvalidIsoformat
      | Some d \<Rightarrow>
          (case parse_timestamps parse_ts rest of
             Inl e \<Rightarrow> Inl e
           | Inr ds \<Rightarrow> Inr (d # ds)))"

definition first :: "'a list \<Rightarrow> py_error + 'a" where
  \<comment> \<open>\<open>xs[0]\<close>\<close>
  "first xs = (case xs of [] \<Rightarrow> Inl IndexError | x # r \<Rightarrow> Inr x)"

definition final :: "'a list \<Rightarrow> py_error + 'a" where
  \<comment> \<open>\<open>xs[-1]\<close>\<close>
  "final xs = (if xs = [] then Inl IndexError else Inr (last xs))"

definition pair_stats :: "bool \<Rightarrow> real list \<Rightarrow> real list \<Rightarrow> py_error + (stats \<times> stats) option" where
  \<comment> \<open>an optional group of two metrics, computed only when \<open>present\<close>\<close>
  "pair_stats present xs ys =
     (if present
      then and_then (metric_stats xs) (\<lambda>a.
           and_then (metric_stats ys) (\<lambda>b. Inr (Some (a, b))))
      else Inr None)"

definition single_stats :: "bool \<Rightarrow> real list \<Rightarrow> py_error + stats option" where
  "single_stats present xs =
     (if present
      then and_then (metric_stats xs) (\<lambda>a. Inr (Some a))
      else Inr None)"

definition analyze_process ::
  "(string \<Rightarrow> datetime option) \<Rightarrow> string \<Rightarrow> item list \<Rightarrow> py_error + analysis" where
  \<comment> \<open>the body of the loop of \<open>analyze_data\<close> for one target\<close>
  "analyze_process parse_ts process_name process_data =
     (let cpu_data = map it_cpu_percent process_data;
          memory_percent_data = map it_memory_percent process_data;
          memory_mb_data = map it_memory_mb process_data;
          disk_read_data = map (get0 \<circ> it_disk_read_bytes) process_data;
          disk_write_data = map (get0 \<circ> it_disk_write_bytes) process_data;
          network_rx_data = map (get0 \<circ> it_network_rx_bytes) process_data;
          network_tx_data = map (get0 \<circ> it_network_tx_bytes) process_data;
          voluntary_switches_data = map (get0 \<circ> it_voluntary_switches) process_data;
          involuntary_switches_data = map (get0 \<circ> it_involuntary_switches) process_data;
          thread_count_data = map (get0 \<circ> it_thread_count) process_data
      in
      and_then (parse_timestamps parse_ts process_data) (\<lambda>timestamps.
      and_then (first process_data) (\<lambda>i0.
      and_then (final timestamps) (\<lambda>t_last.
      and_then (first timestamps) (\<lambda>t_first.
      and_then (total_seconds_between t_last t_first) (\<lambda>test_duration.
      and_then (metric_stats cpu_data) (\<lambda>cpu_stats.
      and_then (metric_stats memory_percent_data) (\<lambda>mp_stats.
      and_then (metric_stats memory_mb_data) (\<lambda>mm_stats.
      and_then (pair_stats (py_any disk_read_data \<or> py_any disk_write_data)
                  disk_read_data disk_write_data) (\<lambda>disk.
      and_then (pair_stats (py_any network_rx_data \<or> py_any network_tx_data)
                  network_rx_data network_tx_data) (\<lambda>net.
      and_then (pair_stats (py_any voluntary_switches_data \<or> py_any involuntary_switches_data)
                  voluntary_switches_data involuntary_switches_data) (\<lambda>ctx.
      and_then (single_stats (py_any thread_count_data) thread_count_data) (\<lambda>thr.
        Inr \<lparr>an_process_name = process_name,
             an_pid = it_pid i0,
             an_command = it_command i0,
             an_args = it_args i0,
             an_data_points = length process_data,
             an_test_duration = test_duration,
             an_start_time = t_first,
             an_end_time = t_last,
             an_cpu = cpu_stats,
             an_memory_percent = mp_stats,
             an_memory_mb = mm_stats,
             an_rss_kb = it_rss_kb i0,
             an_vsz_kb = it_vsz_kb i0,
             an_disk_io = disk,
             an_network_io = net,
             an_context_switches = ctx,
             an_thread_count = thr\<rparr>)))))))))))))"




definition timestamps_subtract :: "(string \<Rightarrow> datetime option) \<Rightarrow> item list \<Rightarrow> bool" where
  \<comment> \<open>every timestamp of the series parses, and its first and its last are both naive or
      both aware\<close>
  "timestamps_subtract parse_ts pd =
     (list_all (\<lambda>i. parse_ts (it_timestamp i) \<noteq> None) pd
      \<and> (case (parse_ts (it_timestamp (hd pd)), parse_ts (it_timestamp (last pd))) of
            (Some a, Some b) \<Rightarrow> (utcoffset a = None) = (utcoffset b = None)
          | _ \<Rightarrow> True))"

section \<open>Saving and loading the data\<close>

text \<open>
  \<open>json.dump\<close> followed by \<open>json.load\<close> gives back the document that was written, so a
  data file is modelled by the document it holds: \<open>Document v\<close> for a file that holds the
  JSON value \<open>v\<close> (an object is a parsed \<open>dict\<close>: its keys are distinct), \<open>Garbage\<close> for a
  file that \<open>json.load\<close> rejects. A path without a file cannot be opened for reading, and
  a path that is not \<open>writable\<close> cannot be opened for writing.
\<close>

datatype file_content = Document json | Garbage

record filesystem =
  contents :: "string \<Rightarrow> file_content option"
  writable :: "string \<Rightarrow> bool"

record monitor =
  mon_data :: store
  mon_report_dir :: "string option"

definition save_item :: "sample \<Rightarrow> json" where
  \<comment> \<open>the dictionary \<open>save_item\<close> of \<open>save_data_to_file\<close>\<close>
  "save_item i =
     JObj ([(''timestamp'', JStr (isoformat (timestamp i))),
            (''target'', target i),
            (''target_name'', target_name i),
            (''pid'', pid i),
            (''cpu_percent'', cpu_percent i),
            (''memory_percent'', memory_percent i),
            (''memory_mb'', memory_mb i),
            (''rss_kb'', rss_kb i),
            (''vsz_kb'', vsz_kb i),
            (''command'', command i),
            (''args'', args i),
            (''system_load'', system_load i),
            (''system_mem_available_mb'', system_mem_available_mb i)]
           @ (case fd_count i of Some v \<Rightarrow> [(''fd_count'', v)] | None \<Rightarrow> [])
           @ (case thread_count i of Some v \<Rightarrow> [(''thread_count'', v)] | None \<Rightarrow> []))"

definition data_to_save :: "store \<Rightarrow> (string \<times> json) list" where
  \<comment> \<open>\<open>data_to_save[target] = []\<close>, then one \<open>append\<close> for each item\<close>
  "data_to_save d =
     fold (\<lambda>(tgt, target_data) acc. AList.update tgt (JArr (map save_item target_data)) acc)
          d []"

definition strftime_compact :: "datetime \<Rightarrow> string" where
  \<comment> \<open>\<open>strftime("%Y%m%d_%H%M%S")\<close>\<close>
  "strftime_compact d =
     pad4 (year d) @ pad2 (month d) @ pad2 (day d) @ ''_''
       @ pad2 (hour d) @ pad2 (minute d) @ pad2 (second d)"

definition path_join :: "string \<Rightarrow> string \<Rightarrow> string" where
  \<comment> \<open>\<open>os.path.join(a, b)\<close> for a relative \<open>b\<close>\<close>
  "path_join a b = (if a = [] \<or> endswith a ''/'' then a @ b else a @ ''/'' @ b)"

definition default_filename :: "monitor \<Rightarrow> datetime \<Rightarrow> string" where
  "default_filename m t =
     (case mon_report_dir m of
        Some dir \<Rightarrow>
          if dir \<noteq> []
          then path_join dir (''monitor_data_'' @ strftime_compact t @ ''.json'')
          else ''process_monitor_data_'' @ strftime_compact t @ ''.json''
      | None \<Rightarrow> ''process_monitor_data_'' @ strftime_compact t @ ''.json'')"

definition save_data_to_file ::
  "monitor \<Rightarrow> filesystem \<Rightarrow> datetime \<Rightarrow> string option
     \<Rightarrow> string option \<times> monitor \<times> filesystem" where
  \<comment> \<open>the result is the returned file name (\<open>None\<close> after an exception), the monitor and
      the file system after the call; \<open>t\<close> is the clock\<close>
  "save_data_to_file m fs t filename =
     (let fname = (case filename of
                     Some f \<Rightarrow> if f \<noteq> [] then f else default_filename m t
                   | None \<Rightarrow> default_filename m t);
          doc = JObj (data_to_save (mon_data m))
      in if writable fs fname
         then (Some fname, m, fs\<lparr>contents := (contents fs)(fname \<mapsto> Document doc)\<rparr>)
         else (None, m, fs))"

definition subscript :: "json \<Rightarrow> string \<Rightarrow> py_error + json" where
  \<comment> \<open>\<open>item[key]\<close> for a string key\<close>
  "subscript v k =
     (case v of
        JObj kvs \<Rightarrow> (case map_of kvs k of Some x \<Rightarrow> Inr x | None \<Rightarrow> Inl (KeyError k))
      | _ \<Rightarrow> Inl TypeError)"

definition parse_timestamp :: "json \<Rightarrow> py_error + datetime" where
  \<comment> \<open>\<open>datetime.fromisoformat(v)\<close>: a \<open>TypeError\<close> unless \<open>v\<close> is a string\<close>
  "parse_timestamp v =
     (case v of
        JStr s \<Rightarrow> (case fromisoformat s of Some d \<Rightarrow> Inr d | None \<Rightarrow> Inl InvalidIsoformat)
      | _ \<Rightarrow> Inl TypeError)"

definition optional_field :: "json \<Rightarrow> string \<Rightarrow> json option" where
  \<comment> \<open>\<open>if key in item: load_item[key] = item[key]\<close>\<close>
  "optional_field v k = (case v of JObj kvs \<Rightarrow> map_of kvs k | _ \<Rightarrow> None)"

definition load_item :: "json \<Rightarrow> py_error + sample" where
  \<comment> \<open>the dictionary \<open>load_item\<close> of \<open>load_data_from_file\<close>, its entries evaluated in order\<close>
  "load_item v =
     and_then (subscript v ''timestamp'') (\<lambda>ts.
     and_then (parse_timestamp ts) (\<lambda>t.
     and_then (subscript v ''target'') (\<lambda>tg.
     and_then (subscript v ''target_name'') (\<lambda>tn.
     and_then (subscript v ''pid'') (\<lambda>p.
     and_then (subscript v ''cpu_percent'') (\<lambda>c.
     and_then (subscript v ''memory_percent'') (\<lambda>mp.
     and_then (subscript v ''memory_mb'') (\<lambda>mm.
     and_then (subscript v ''rss_kb'') (\<lambda>rs.
     and_then (subscript v ''vsz_kb'') (\<lambda>vs.
     and_then (subscript v ''command'') (\<lambda>cm.
     and_then (subscript v ''args'') (\<lambda>ar.
     and_then (subscript v ''system_load'') (\<lambda>sl.
     and_then (subscript v ''system_mem_available_mb'') (\<lambda>sm.
       Inr \<lparr>timestamp = t, target = tg, target_name = tn, pid = p, cpu_percent = c,
            memory_percent = mp, memory_mb = mm, rss_kb = rs, vsz_kb = vs, command = cm,
            args = ar, system_load = sl, system_mem_available_mb = sm,
            fd_count = optional_field v ''fd_count'',
            thread_count = optional_field v ''thread_count''\<rparr>))))))))))))))"

definition py_iter :: "json \<Rightarrow> py_error + json list" where
  \<comment> \<open>the items of \<open>for item in v\<close>: the elements of a list, the characters of a string,
      the keys of a dictionary; other values are not iterable\<close>
  "py_iter v =
     (case v of
        JArr xs \<Rightarrow> Inr xs
      | JStr s \<Rightarrow> Inr (map (\<lambda>c. JStr [c]) s)
      | JObj kvs \<Rightarrow> Inr (map (\<lambda>kv. JStr (fst kv)) kvs)
      | _ \<Rightarrow> Inl TypeError)"

fun load_items :: "string \<Rightarrow> json list \<Rightarrow> store \<Rightarrow> py_error option \<times> store" where
  \<comment> \<open>the inner loop; an exception leaves the loop with the store as it is by then\<close>
  "load_items tgt [] d = (None, d)"
| "load_items tgt (v # rest) d =
     (case load_item v of
        Inl e \<Rightarrow> (Some e, d)
      | Inr s \<Rightarrow> load_items tgt rest (AList.update tgt (series d tgt @ [s]) d))"

fun load_targets :: "(string \<times> json) list \<Rightarrow> store \<Rightarrow> py_error option \<times> store" where
  "load_targets [] d = (None, d)"
| "load_targets ((tgt, target_data) # rest) d =
     (case py_iter target_data of
        Inl e \<Rightarrow> (Some e, d)
      | Inr vs \<Rightarrow>
          (case load_items tgt vs d of
             (Some e, d') \<Rightarrow> (Some e, d')
           | (None, d') \<Rightarrow> load_targets rest d'))"

definition load_data_from_file :: "monitor \<Rightarrow> filesystem \<Rightarrow> string \<Rightarrow> bool \<times> monitor" where
  \<comment> \<open>the result is the returned flag and the monitor after the call. \<open>self.data\<close> is
      replaced by an empty \<open>defaultdict\<close> once the file is read, before its records are
      converted\<close>
  "load_data_from_file m fs filename =
     (case contents fs filename of
        None \<Rightarrow> (False, m)
      | Some Garbage \<Rightarrow> (False, m)
      | Some (Document doc) \<Rightarrow>
          (case doc of
             JObj kvs \<Rightarrow>
               (case load_targets kvs [] of
                  (Some e, d) \<Rightarrow> (False, m\<lparr>mon_data := d\<rparr>)
                | (None, d) \<Rightarrow> (True, m\<lparr>mon_data := d\<rparr>))
           | _ \<Rightarrow> (False, m\<lparr>mon_data := []\<rparr>)))"

section \<open>Concrete inputs\<close>

definition default_config :: monitor_config where
  \<comment> \<open>\<open>ProcessMonitor.default_config\<close>\<close>
  "default_config =
     \<lparr>cfg_cpu_percent = True, cfg_memory_percent = True, cfg_memory_mb = True,
      cfg_file_descriptors = False, cfg_thread_count = False\<rparr>"

definition noon :: datetime where
  "noon = \<lparr>year = 2024, month = 2, day = 29, hour = 12, minute = 0, second = 7,
           microsecond = 0, utcoffset = None\<rparr>"

definition absent_world :: world where
  \<comment> \<open>a system on which no process is found: \<open>pgrep\<close> matches nothing and \<open>ps\<close> fails\<close>
  "absent_world =
     \<lparr>now = noon,
      pgrep_x = (\<lambda>n. Inr \<lparr>returncode = 1, stdout = []\<rparr>),
      pgrep_f = (\<lambda>n. Inr \<lparr>returncode = 1, stdout = []\<rparr>),
      ps_comm = (\<lambda>p. Inr \<lparr>returncode = 1, stdout = []\<rparr>),
      ps_info = (\<lambda>p. Inr \<lparr>returncode = 1, stdout = []\<rparr>),
      py_float = (\<lambda>s. None),
      get_system_info = None,
      get_file_descriptors_info = (\<lambda>p. 0),
      get_thread_count_info = (\<lambda>p. 0),
      raises = False\<rparr>"

definition quiet_cycle :: cycle_obs where
  \<comment> \<open>an iteration whose collection takes two seconds and that nobody stops\<close>
  "quiet_cycle =
     \<lparr>worlds = (\<lambda>i. absent_world), cycle_began = 0, clock = 2, stop_requested = False\<rparr>"

definition one_series_store :: heap_store where
  \<comment> \<open>a store that holds one sample for the target \<open>foo\<close>\<close>
  "one_series_store =
     \<lparr>lists = (\<lambda>r. if r = 0 then [create_zero_data default_config absent_world ''foo'' ''foo'' None]
                     else []),
      next_ref = 1,
      refs = [(''foo'', 0)]\<rparr>"

definition plain_item :: "string \<Rightarrow> real \<Rightarrow> real option \<Rightarrow> item" where
  \<comment> \<open>a record as the monitor writes it: \<open>thr\<close> is its thread count, when enabled\<close>
  "plain_item ts c thr =
     \<lparr>it_timestamp = ts, it_pid = 42, it_command = ''foo'', it_args = ''foo --serve'',
      it_cpu_percent = c, it_memory_percent = 1, it_memory_mb = 10,
      it_rss_kb = 10240, it_vsz_kb = 20480,
      it_disk_read_bytes = None, it_disk_write_bytes = None,
      it_network_rx_bytes = None, it_network_tx_bytes = None,
      it_voluntary_switches = None, it_involuntary_switches = None,
      it_thread_count = thr\<rparr>"

definition idle_series :: "item list" where
  \<comment> \<open>two records of a process monitored with the thread count enabled, which reports
      no thread count but zero\<close>
  "idle_series =
     [plain_item ''2024-02-29T12:00:07'' 2 (Some 0),
      plain_item ''2024-02-29T12:00:12.250000'' 2 (Some 0)]"

definition foo_sample :: sample where
  \<comment> \<open>a sample of the target \<open>foo\<close>, collected without the optional metrics\<close>
  "foo_sample = create_zero_data default_config absent_world ''foo'' ''foo'' None"

definition foo_monitor :: monitor where
  "foo_monitor = \<lparr>mon_data = [(''foo'', [foo_sample])], mon_report_dir = None\<rparr>"

definition empty_disk :: filesystem where
  \<comment> \<open>a file system without files, on which every path can be written\<close>
  "empty_disk = \<lparr>contents = (\<lambda>p. None), writable = (\<lambda>p. True)\<rparr>"

definition broken_disk :: filesystem where
  \<comment> \<open>a file system whose file \<open>data.json\<close> holds \<open>{"bar": [{}]}\<close>, a record without
      fields\<close>
  "broken_disk =
     \<lparr>contents = (\<lambda>p. if p = ''data.json''
                       then Some (Document (JObj [(''bar'', JArr [JObj []])])) else None),
      writable = (\<lambda>p. True)\<rparr>"

definition busy_series :: "item list" where
  \<comment> \<open>two records of a process that reports four threads\<close>
  "busy_series =
     [plain_item ''2024-02-29T12:00:07'' 2 (Some 4),
      plain_item ''2024-02-29T12:00:12.250000'' 2 (Some 4)]"


section \<open>Properties of target resolution\<close>

lemma endswith_iff: "endswith s suf \<longleftrightarrow> (\<exists>p. s = p @ suf)"
proof
  assume "endswith s suf"
  then have "s = take (length s - length suf) s @ suf"
    by (metis append_take_drop_id endswith_def)
  then show "\<exists>p. s = p @ suf" ..
next
  assume "\<exists>p. s = p @ suf"
  then show "endswith s suf"
    by (auto simp: endswith_def)
qed

text \<open>
  Claim C6. Executable verification accepts a PID exactly when \<open>ps\<close> reports a command
  name for it and that name equals the requested name up to letter case, or ends with a
  slash or a backslash followed by the requested name. A reported command \<open>foobar\<close> is
  rejected for the requested name \<open>foo\<close>.
\<close>

theorem verify_process_executable_iff:
  "(verify_process_executable run_ps n name \<longleftrightarrow>
      (\<exists>r. run_ps n = Inr r \<and> returncode r = 0 \<and> strip (stdout r) \<noteq> [] \<and>
           (lower (strip (stdout r)) = lower name
            \<or> (\<exists>p. strip (stdout r) = p @ CHR ''/'' # name)
            \<or> (\<exists>p. strip (stdout r) = p @ CHR 0x5C # name))))
   \<and> \<not> verify_process_executable
          (\<lambda>p. Inr \<lparr>returncode = 0, stdout = ''foobar'' @ [CHR 0x0A]\<rparr>) n ''foo''"
proof
  show "verify_process_executable run_ps n name \<longleftrightarrow>
      (\<exists>r. run_ps n = Inr r \<and> returncode r = 0 \<and> strip (stdout r) \<noteq> [] \<and>
           (lower (strip (stdout r)) = lower name
            \<or> (\<exists>p. strip (stdout r) = p @ CHR ''/'' # name)
            \<or> (\<exists>p. strip (stdout r) = p @ CHR 0x5C # name)))"
    by (cases "run_ps n") (auto simp: verify_process_executable_def Let_def endswith_iff)
next
  show "\<not> verify_process_executable
          (\<lambda>p. Inr \<lparr>returncode = 0, stdout = ''foobar'' @ [CHR 0x0A]\<rparr>) n ''foo''"
    by (simp add: verify_process_executable_def strip_def is_space_def lower_def
        lower_char_def endswith_def)
qed

theorem verify_process_executable_iff_witness:
  "verify_process_executable
     (\<lambda>p. Inr \<lparr>returncode = 0, stdout = ''/usr/bin/Foo'' @ [CHR 0x0A]\<rparr>) 42 ''Foo''"
proof -
  have s1: "strip (''/usr/bin/Foo'' @ [CHR 0x0A]) = ''/usr/bin/Foo''"
    by (simp add: strip_def is_space_def)
  have "\<exists>r. (\<lambda>p::int. Inr \<lparr>returncode = 0, stdout = ''/usr/bin/Foo'' @ [CHR 0x0A]\<rparr>
                 :: run_result) 42 = Inr r
            \<and> returncode r = 0 \<and> strip (stdout r) \<noteq> [] \<and>
           (lower (strip (stdout r)) = lower ''Foo''
            \<or> (\<exists>p. strip (stdout r) = p @ CHR ''/'' # ''Foo'')
            \<or> (\<exists>p. strip (stdout r) = p @ CHR 0x5C # ''Foo''))"
    apply (rule exI [of _ "\<lparr>returncode = 0, stdout = ''/usr/bin/Foo'' @ [CHR 0x0A]\<rparr>"])
    apply (simp only: s1 simp_thms completed_process.simps)
    apply (rule conjI, simp)
    apply (rule disjI2, rule disjI1)
    apply (rule exI [of _ "''/usr/bin''"])
    apply simp
    done
  then show ?thesis
    by (rule verify_process_executable_iff [THEN conjunct1, THEN iffD2])
qed

text \<open>
  A line of \<open>pgrep\<close> that passes \<open>isdigit\<close> is read by \<open>int\<close> as its decimal value, without
  an exception: this is the value \<open>verified_pids\<close> takes.
\<close>

lemma digit_not_space: "is_digit c \<Longrightarrow> \<not> is_space c"
  by (auto simp: is_digit_def is_space_def)

lemma digit_not_sign: "is_digit c \<Longrightarrow> c \<noteq> CHR ''-'' \<and> c \<noteq> CHR ''+'' \<and> c \<noteq> CHR ''_''"
  by (auto simp: is_digit_def)

lemma strip_digits:
  assumes "list_all is_digit s"
  shows "strip s = s"
proof (cases s)
  case Nil
  then show ?thesis by (simp add: strip_def)
next
  case (Cons c r)
  with assms have a: "\<not> is_space (hd s)" and b: "\<not> is_space (last s)"
    by (auto simp: list_all_iff digit_not_space)
  from Cons have ne: "s \<noteq> []" by simp
  from b ne have b': "\<not> is_space (hd (rev s))"
    by (simp add: hd_rev)
  from a ne have 1: "dropWhile is_space s = s"
    by (cases s) simp_all
  from b' ne have 2: "dropWhile is_space (rev s) = rev s"
    by (cases "rev s") simp_all
  from 1 2 have "rev (dropWhile is_space (rev (dropWhile is_space s))) = s"
    by simp
  then show ?thesis by (simp add: strip_def)
qed

lemma int_body_ok_digits: "s \<noteq> [] \<Longrightarrow> list_all is_digit s \<Longrightarrow> int_body_ok s"
  by (induction s rule: int_body_ok.induct) (auto simp: digit_not_sign)

lemma filter_digits: "list_all is_digit s \<Longrightarrow> filter (\<lambda>c. c \<noteq> CHR ''_'') s = s"
  by (induction s) (auto simp: digit_not_sign)

lemma py_int_isdigit:
  assumes "isdigit s"
  shows "py_int s = Some (int (digits_val 0 s))"
proof -
  from assms have ne: "s \<noteq> []" and d: "list_all is_digit s"
    by (simp_all add: isdigit_def)
  from ne d have "is_digit (hd s)"
    by (cases s) simp_all
  then have h: "hd s \<noteq> CHR ''-''" "hd s \<noteq> CHR ''+''"
    using digit_not_sign by blast+
  show ?thesis
    using h int_body_ok_digits [OF ne d]
    by (simp add: py_int_def strip_digits [OF d] filter_digits [OF d])
qed

section \<open>One sample per target per cycle\<close>

lemma collect_all_data_from_other:
  "t \<notin> set tgts \<Longrightarrow> map_of (collect_all_data_from cfg ws i tgts acc) t = map_of acc t"
  by (induction tgts arbitrary: i acc) (simp_all add: update_conv')

lemma collect_all_data_from_keys:
  "fst ` set (collect_all_data_from cfg ws i tgts acc) = fst ` set acc \<union> set tgts"
  by (induction tgts arbitrary: i acc) (auto simp: dom_update)

lemma collect_all_data_from_distinct:
  "distinct (map fst acc) \<Longrightarrow> distinct (map fst (collect_all_data_from cfg ws i tgts acc))"
  by (induction tgts arbitrary: i acc) (simp_all add: distinct_update)

lemma collect_all_data_from_member:
  "t \<in> set tgts \<Longrightarrow>
   \<exists>j. j < length tgts \<and> tgts ! j = t \<and>
       map_of (collect_all_data_from cfg ws i tgts acc) t
         = Some (sample_for_target cfg (ws (i + j)) t)"
proof (induction tgts arbitrary: i acc)
  case Nil
  then show ?case by simp
next
  case (Cons x rest)
  show ?case
  proof (cases "t \<in> set rest")
    case True
    from Cons.IH [OF True, of "Suc i" "AList.update x (sample_for_target cfg (ws i) x) acc"]
    obtain j where j: "j < length rest" "rest ! j = t"
      "map_of (collect_all_data_from cfg ws (Suc i) rest
                 (AList.update x (sample_for_target cfg (ws i) x) acc)) t
         = Some (sample_for_target cfg (ws (Suc i + j)) t)"
      by blast
    then have "Suc j < length (x # rest) \<and> (x # rest) ! Suc j = t \<and>
       map_of (collect_all_data_from cfg ws i (x # rest) acc) t
         = Some (sample_for_target cfg (ws (i + Suc j)) t)"
      by simp
    then show ?thesis by blast
  next
    case False
    with Cons.prems have tx: "t = x" by simp
    from False have "map_of (collect_all_data_from cfg ws i (x # rest) acc) t
        = map_of (AList.update x (sample_for_target cfg (ws i) x) acc) t"
      by (simp add: collect_all_data_from_other)
    also have "\<dots> = Some (sample_for_target cfg (ws (i + 0)) t)"
      by (simp add: tx update_conv')
    finally have "0 < length (x # rest) \<and> (x # rest) ! 0 = t \<and>
       map_of (collect_all_data_from cfg ws i (x # rest) acc) t
         = Some (sample_for_target cfg (ws (i + 0)) t)"
      by (simp add: tx)
    then show ?thesis by blast
  qed
qed

lemma series_update:
  "series (AList.update k v d) t = (if t = k then v else series d t)"
  by (simp add: series_def update_conv')

lemma append_batch_series:
  "distinct (map fst batch) \<Longrightarrow>
   series (append_batch d batch) t
     = (case map_of batch t of Some s \<Rightarrow> series d t @ [s] | None \<Rightarrow> series d t)"
  unfolding append_batch_def
proof (induction batch arbitrary: d)
  case Nil
  then show ?case by simp
next
  case (Cons e rest)
  obtain k s where e: "e = (k, s)" by (cases e)
  from Cons.prems e have k: "k \<notin> fst ` set rest" and dr: "distinct (map fst rest)"
    by auto
  from k have none: "map_of rest k = None"
    by (simp add: map_of_eq_None_iff)
  show ?case
    using Cons.IH [OF dr, of "AList.update k (series d k @ [s]) d"] none
    by (simp add: e series_update split: option.splits)
qed

lemma cycle_body_series:
  assumes "t \<in> set tgts"
  shows "\<exists>j. j < length tgts \<and> tgts ! j = t \<and>
           series (ls_data (cycle_body cfg tgts c st)) t
             = series (ls_data st) t @ [sample_for_target cfg (worlds c j) t]"
    and "sample_count (cycle_body cfg tgts c st) = Suc (sample_count st)"
proof -
  let ?all = "collect_all_data cfg (worlds c) tgts"
  from assms have "t \<in> fst ` set ?all"
    by (simp add: collect_all_data_def collect_all_data_from_keys)
  then have ne: "?all \<noteq> []" by auto
  have d: "distinct (map fst ?all)"
    by (simp add: collect_all_data_def collect_all_data_from_distinct)
  from collect_all_data_from_member [OF assms, of cfg "worlds c" 0 "[]"]
  obtain j where j: "j < length tgts" "tgts ! j = t"
    "map_of ?all t = Some (sample_for_target cfg (worlds c j) t)"
    by (auto simp: collect_all_data_def)
  have "series (ls_data (cycle_body cfg tgts c st)) t
             = series (ls_data st) t @ [sample_for_target cfg (worlds c j) t]"
    using ne j(3) by (simp add: cycle_body_def Let_def append_batch_series [OF d])
  with j show "\<exists>j. j < length tgts \<and> tgts ! j = t \<and>
           series (ls_data (cycle_body cfg tgts c st)) t
             = series (ls_data st) t @ [sample_for_target cfg (worlds c j) t]"
    by blast
  show "sample_count (cycle_body cfg tgts c st) = Suc (sample_count st)"
    using ne by (simp add: cycle_body_def Let_def)
qed

lemma cycle_body_length:
  "t \<in> set tgts \<Longrightarrow>
   length (series (ls_data (cycle_body cfg tgts c st)) t) = Suc (length (series (ls_data st) t))"
  using cycle_body_series(1) [of t tgts cfg c st] by auto

lemma monitor_loop_invariant:
  "t \<in> set tgts \<Longrightarrow> length (series (ls_data st) t) = sample_count st + n \<Longrightarrow>
   length (series (ls_data (monitor_loop cfg tgts interval duration start_time obs st)) t)
     = sample_count (monitor_loop cfg tgts interval duration start_time obs st) + n"
proof (induction obs arbitrary: st)
  case Nil
  then show ?case by simp
next
  case (Cons c cs)
  let ?st1 = "cycle_body cfg tgts c st"
  have 1: "length (series (ls_data ?st1) t) = sample_count ?st1 + n"
    using Cons.prems by (simp add: cycle_body_length cycle_body_series(2))
  have 2: "length (series (ls_data (?st1\<lparr>sleeps := sleeps ?st1 @ [interval]\<rparr>)) t)
         = sample_count (?st1\<lparr>sleeps := sleeps ?st1 @ [interval]\<rparr>) + n"
    using 1 by simp
  show ?case
    using Cons.prems 1 Cons.IH [OF Cons.prems(1) 2]
    by (simp add: Let_def)
qed

lemma monitor_loop_count:
  "tgts \<noteq> [] \<Longrightarrow> ls_monitoring st \<Longrightarrow>
   list_all (\<lambda>c. \<not> stop_requested c \<and> \<not> duration_reached duration start_time (clock c)) obs \<Longrightarrow>
   sample_count (monitor_loop cfg tgts interval duration start_time obs st)
     = sample_count st + length obs"
proof (induction obs arbitrary: st)
  case Nil
  then show ?case by simp
next
  case (Cons c cs)
  let ?st1 = "cycle_body cfg tgts c st"
  from Cons.prems(1) obtain t where t: "t \<in> set tgts" by (cases tgts) auto
  have m: "ls_monitoring (?st1\<lparr>sleeps := sleeps ?st1 @ [interval]\<rparr>)"
    using Cons.prems(2) by (simp add: cycle_body_def Let_def)
  have l: "list_all (\<lambda>c. \<not> stop_requested c \<and> \<not> duration_reached duration start_time (clock c)) cs"
    using Cons.prems(3) by simp
  show ?case
    using Cons.prems Cons.IH [OF Cons.prems(1) m l] cycle_body_series(2) [OF t, of cfg c st]
    by (simp add: Let_def)
qed

text \<open>
  Claim C1. A cycle appends exactly one sample, the collected one or zero data, to the
  series of every configured target. So after the loop has run, the series of every
  configured target holds as many samples as cycles were completed (\<open>sample_count\<close>), any
  two configured targets have series of the same length, and when nothing stops the loop
  during \<open>N\<close> iterations that length is \<open>N\<close>.
\<close>

theorem one_sample_per_target_per_cycle:
  assumes "t \<in> set tgts" and "u \<in> set tgts"
  shows "(\<exists>j. j < length tgts \<and> tgts ! j = t \<and>
              series (ls_data (cycle_body cfg tgts c st)) t
                = series (ls_data st) t @ [sample_for_target cfg (worlds c j) t])
       \<and> length (series (ls_data
              (monitor_loop cfg tgts interval duration start_time obs start_monitoring)) t)
           = sample_count
              (monitor_loop cfg tgts interval duration start_time obs start_monitoring)
       \<and> length (series (ls_data
              (monitor_loop cfg tgts interval duration start_time obs start_monitoring)) t)
           = length (series (ls_data
              (monitor_loop cfg tgts interval duration start_time obs start_monitoring)) u)
       \<and> (list_all (\<lambda>c. \<not> stop_requested c
                           \<and> \<not> duration_reached duration start_time (clock c)) obs
            \<longrightarrow> length (series (ls_data
                  (monitor_loop cfg tgts interval duration start_time obs start_monitoring)) t)
                = length obs)"
proof -
  let ?r = "monitor_loop cfg tgts interval duration start_time obs start_monitoring"
  have init: "\<And>x. length (series (ls_data start_monitoring) x)
                  = sample_count start_monitoring + 0"
    by (simp add: start_monitoring_def series_def)
  have lt: "length (series (ls_data ?r) t) = sample_count ?r"
    using monitor_loop_invariant [OF assms(1) init] by simp
  have lu: "length (series (ls_data ?r) u) = sample_count ?r"
    using monitor_loop_invariant [OF assms(2) init] by simp
  from assms(1) have ne: "tgts \<noteq> []" by auto
  have cnt: "list_all (\<lambda>c. \<not> stop_requested c
                           \<and> \<not> duration_reached duration start_time (clock c)) obs
            \<Longrightarrow> sample_count ?r = length obs"
    using monitor_loop_count [OF ne, of start_monitoring duration start_time obs cfg interval]
    by (simp add: start_monitoring_def)
  show ?thesis
    using cycle_body_series(1) [OF assms(1), of cfg c st] lt lu cnt by simp
qed

theorem one_sample_per_target_per_cycle_witness:
  "length (series (ls_data
      (monitor_loop default_config [''1234'', ''foo''] 5 None 0
         [quiet_cycle, quiet_cycle, quiet_cycle] start_monitoring)) ''foo'') = 3"
proof -
  have m: "''foo'' \<in> set [''1234'', ''foo'']" by simp
  have q: "list_all (\<lambda>c. \<not> stop_requested c \<and> \<not> duration_reached None 0 (clock c))
             [quiet_cycle, quiet_cycle, quiet_cycle]"
    by (simp add: quiet_cycle_def duration_reached_def)
  from one_sample_per_target_per_cycle [OF m m, of default_config quiet_cycle start_monitoring
         5 None 0 "[quiet_cycle, quiet_cycle, quiet_cycle]"]
  have "list_all (\<lambda>c. \<not> stop_requested c \<and> \<not> duration_reached None 0 (clock c))
             [quiet_cycle, quiet_cycle, quiet_cycle]
        \<longrightarrow> length (series (ls_data
              (monitor_loop default_config [''1234'', ''foo''] 5 None 0
                 [quiet_cycle, quiet_cycle, quiet_cycle] start_monitoring)) ''foo'')
            = length [quiet_cycle, quiet_cycle, quiet_cycle]"
    by (elim conjE)
  with q show ?thesis by simp
qed

section \<open>Zero data\<close>

lemma create_zero_data_fields:
  "target (create_zero_data cfg w t nm p) = JStr t"
  "cpu_percent (create_zero_data cfg w t nm p) = JFloat 0"
  "memory_percent (create_zero_data cfg w t nm p) = JFloat 0"
  "memory_mb (create_zero_data cfg w t nm p) = JFloat 0"
  "pid (create_zero_data cfg w t nm p) = JInt (case p of Some n \<Rightarrow> n | None \<Rightarrow> 0)"
  by (simp_all add: create_zero_data_def)

text \<open>
  The failures of the process query: a timeout or another exception, a process that
  \<open>ps\<close> does not find, and an output without a second line or with fewer than eight
  columns all make \<open>get_process_info\<close> return \<open>None\<close>.
\<close>

lemma get_process_info_failures:
  "ps_info w p = Inl e \<Longrightarrow> get_process_info w p = None"
  "ps_info w p = Inr r \<Longrightarrow> returncode r \<noteq> 0 \<Longrightarrow> get_process_info w p = None"
  "ps_info w p = Inr r \<Longrightarrow> length (split_on (CHR 0x0A) (strip (stdout r))) < 2
     \<Longrightarrow> get_process_info w p = None"
  "ps_info w p = Inr r
     \<Longrightarrow> length (split_ws (split_on (CHR 0x0A) (strip (stdout r)) ! 1)) < 8
     \<Longrightarrow> get_process_info w p = None"
  by (simp_all add: get_process_info_def Let_def)

text \<open>
  Claim C2, as the code has it. When resolution or collection fails, the sample stored
  for the target carries the target identifier and zero \<open>cpu_percent\<close>, \<open>memory_percent\<close>
  and \<open>memory_mb\<close>. Its PID is 0 when no process id is known: an exception, or a name that
  no verified process answers to. When the target is numeric and the process is absent,
  the PID is the target's own number; when the name resolves to a PID whose process
  information is absent, the PID is that PID.
\<close>

theorem zero_sample_on_failure:
  "(raises w \<or> (py_int t = None
                 \<and> find_process_by_name (pgrep_x w) (pgrep_f w) (ps_comm w) t = [])
      \<longrightarrow> target (sample_for_target cfg w t) = JStr t
          \<and> cpu_percent (sample_for_target cfg w t) = JFloat 0
          \<and> memory_percent (sample_for_target cfg w t) = JFloat 0
          \<and> memory_mb (sample_for_target cfg w t) = JFloat 0
          \<and> pid (sample_for_target cfg w t) = JInt 0)
   \<and> (\<not> raises w \<and> py_int t = Some n \<and> get_process_info w n = None
      \<longrightarrow> target (sample_for_target cfg w t) = JStr t
          \<and> cpu_percent (sample_for_target cfg w t) = JFloat 0
          \<and> memory_percent (sample_for_target cfg w t) = JFloat 0
          \<and> memory_mb (sample_for_target cfg w t) = JFloat 0
          \<and> pid (sample_for_target cfg w t) = JInt n)
   \<and> (\<not> raises w \<and> py_int t = None
        \<and> find_process_by_name (pgrep_x w) (pgrep_f w) (ps_comm w) t = n # rest
        \<and> get_process_info w n = None
      \<longrightarrow> target (sample_for_target cfg w t) = JStr t
          \<and> cpu_percent (sample_for_target cfg w t) = JFloat 0
          \<and> memory_percent (sample_for_target cfg w t) = JFloat 0
          \<and> memory_mb (sample_for_target cfg w t) = JFloat 0
          \<and> pid (sample_for_target cfg w t) = JInt n)"
proof (intro conjI impI)
  assume a: "raises w \<or> (py_int t = None
                 \<and> find_process_by_name (pgrep_x w) (pgrep_f w) (ps_comm w) t = [])"
  then have "sample_for_target cfg w t = create_zero_data cfg w t t None"
    by (auto simp: sample_for_target_def collect_data_for_target_def)
  then show "target (sample_for_target cfg w t) = JStr t"
    "cpu_percent (sample_for_target cfg w t) = JFloat 0"
    "memory_percent (sample_for_target cfg w t) = JFloat 0"
    "memory_mb (sample_for_target cfg w t) = JFloat 0"
    "pid (sample_for_target cfg w t) = JInt 0"
    by (simp_all add: create_zero_data_fields)
next
  assume a: "\<not> raises w \<and> py_int t = Some n \<and> get_process_info w n = None"
  then have "sample_for_target cfg w t
               = create_zero_data cfg w t (''PID_'' @ str_int n) (Some n)"
    by (simp add: sample_for_target_def collect_data_for_target_def)
  then show "target (sample_for_target cfg w t) = JStr t"
    "cpu_percent (sample_for_target cfg w t) = JFloat 0"
    "memory_percent (sample_for_target cfg w t) = JFloat 0"
    "memory_mb (sample_for_target cfg w t) = JFloat 0"
    "pid (sample_for_target cfg w t) = JInt n"
    by (simp_all add: create_zero_data_fields)
next
  assume a: "\<not> raises w \<and> py_int t = None
        \<and> find_process_by_name (pgrep_x w) (pgrep_f w) (ps_comm w) t = n # rest
        \<and> get_process_info w n = None"
  then have "sample_for_target cfg w t = create_zero_data cfg w t t (Some n)"
    by (simp add: sample_for_target_def collect_data_for_target_def)
  then show "target (sample_for_target cfg w t) = JStr t"
    "cpu_percent (sample_for_target cfg w t) = JFloat 0"
    "memory_percent (sample_for_target cfg w t) = JFloat 0"
    "memory_mb (sample_for_target cfg w t) = JFloat 0"
    "pid (sample_for_target cfg w t) = JInt n"
    by (simp_all add: create_zero_data_fields)
qed

lemma py_int_1234: "py_int ''1234'' = Some 1234"
  by (simp add: py_int_def strip_def is_space_def is_digit_def digit_val_def)

lemma py_int_foo: "py_int ''foo'' = None"
  by (simp add: py_int_def strip_def is_space_def is_digit_def)

lemma find_process_by_name_absent:
  "find_process_by_name (pgrep_x absent_world) (pgrep_f absent_world) (ps_comm absent_world) x
     = []"
  by (simp add: find_process_by_name_def absent_world_def)

theorem zero_sample_on_failure_witness:
  "pid (sample_for_target default_config absent_world ''foo'') = JInt 0
   \<and> cpu_percent (sample_for_target default_config absent_world ''foo'') = JFloat 0
   \<and> target (sample_for_target default_config absent_world ''1234'') = JStr ''1234''
   \<and> pid (sample_for_target default_config absent_world ''1234'') = JInt 1234"
proof -
  have r: "\<not> raises absent_world" and g: "get_process_info absent_world 1234 = None"
    by (simp_all add: absent_world_def get_process_info_def)
  note z = zero_sample_on_failure [of absent_world _ default_config]
  have 1: "pid (sample_for_target default_config absent_world ''foo'') = JInt 0
         \<and> cpu_percent (sample_for_target default_config absent_world ''foo'') = JFloat 0"
    using z [of "''foo''", THEN conjunct1] py_int_foo find_process_by_name_absent by blast
  have 2: "target (sample_for_target default_config absent_world ''1234'') = JStr ''1234''
         \<and> pid (sample_for_target default_config absent_world ''1234'') = JInt 1234"
    using z [of "''1234''" 1234, THEN conjunct2, THEN conjunct1] r g py_int_1234 by blast
  from 1 2 show ?thesis by blast
qed

text \<open>
  The claim as the specification words it fails: a numeric target whose process is absent
  gets zero data that carries the target's number as its PID, not 0.
\<close>

theorem zero_sample_pid_counterexample:
  "get_process_info absent_world 1234 = None
   \<and> cpu_percent (sample_for_target default_config absent_world ''1234'') = JFloat 0
   \<and> pid (sample_for_target default_config absent_world ''1234'') \<noteq> JInt 0"
proof -
  have r: "\<not> raises absent_world" and g: "get_process_info absent_world 1234 = None"
    by (simp_all add: absent_world_def get_process_info_def)
  have "sample_for_target default_config absent_world ''1234''
          = create_zero_data default_config absent_world ''1234'' (''PID_'' @ str_int 1234)
              (Some 1234)"
    using r g by (simp add: sample_for_target_def collect_data_for_target_def py_int_1234)
  then show ?thesis
    using g by (simp add: create_zero_data_fields)
qed

section \<open>The sleep of a cycle\<close>

lemma monitor_loop_sleeps:
  "\<exists>k. k \<le> length obs \<and>
       sleeps (monitor_loop cfg tgts interval duration start_time obs st)
         = sleeps st @ replicate k interval"
proof (induction obs arbitrary: st)
  case Nil
  then show ?case by simp
next
  case (Cons c cs)
  let ?st1 = "cycle_body cfg tgts c st"
  have s1: "sleeps ?st1 = sleeps st"
    by (simp add: cycle_body_def Let_def)
  from Cons.IH [of "?st1\<lparr>sleeps := sleeps ?st1 @ [interval]\<rparr>"]
  obtain k where k: "k \<le> length cs"
    "sleeps (monitor_loop cfg tgts interval duration start_time cs
               (?st1\<lparr>sleeps := sleeps ?st1 @ [interval]\<rparr>))
       = sleeps st @ replicate (Suc k) interval"
    by (auto simp: s1)
  show ?case
  proof (cases "stop_requested c \<or> \<not> ls_monitoring st
                \<or> duration_reached duration start_time (clock c)")
    case True
    then have "sleeps (monitor_loop cfg tgts interval duration start_time (c # cs) st)
                 = sleeps st @ replicate 0 interval"
      by (auto simp: Let_def s1)
    then show ?thesis by (intro exI [of _ 0]) simp
  next
    case False
    then have "sleeps (monitor_loop cfg tgts interval duration start_time (c # cs) st)
                 = sleeps st @ replicate (Suc k) interval"
      using k(2) by (simp add: Let_def)
    with k(1) show ?thesis by (intro exI [of _ "Suc k"]) simp
  qed
qed

lemma monitor_loop_sleeps_all:
  "ls_monitoring st \<Longrightarrow>
   list_all (\<lambda>c. \<not> stop_requested c \<and> \<not> duration_reached duration start_time (clock c)) obs \<Longrightarrow>
   sleeps (monitor_loop cfg tgts interval duration start_time obs st)
     = sleeps st @ replicate (length obs) interval"
proof (induction obs arbitrary: st)
  case Nil
  then show ?case by simp
next
  case (Cons c cs)
  let ?st1 = "cycle_body cfg tgts c st"
  have s1: "sleeps ?st1 = sleeps st" and m1: "ls_monitoring ?st1 = ls_monitoring st"
    by (simp_all add: cycle_body_def Let_def)
  have m: "ls_monitoring (?st1\<lparr>sleeps := sleeps ?st1 @ [interval]\<rparr>)"
    using Cons.prems(1) by (simp add: m1)
  have l: "list_all (\<lambda>c. \<not> stop_requested c
                          \<and> \<not> duration_reached duration start_time (clock c)) cs"
    using Cons.prems(2) by simp
  show ?case
    using Cons.prems Cons.IH [OF m l] by (simp add: Let_def s1 replicate_app_Cons_same)
qed

lemma cycle_body_keeps:
  "sleeps (cycle_body cfg tgts c st) = sleeps st"
  "ls_monitoring (cycle_body cfg tgts c st) = ls_monitoring st"
  by (simp_all add: cycle_body_def Let_def)

lemma cycle_body_count:
  "sample_count (cycle_body cfg tgts c st)
     = (if tgts = [] then sample_count st else Suc (sample_count st))"
proof (cases tgts)
  case Nil
  then show ?thesis
    by (simp add: cycle_body_def collect_all_data_def)
next
  case (Cons t rest)
  then have "t \<in> set tgts" by simp
  from cycle_body_series(2) [OF this, of cfg c st] Cons show ?thesis by simp
qed

lemma monitor_loop_sleeps_exact:
  "sleeps (monitor_loop cfg tgts interval duration start_time obs st)
     = sleeps st
       @ replicate
           (if ls_monitoring st
            then length (takeWhile (\<lambda>c. \<not> stop_requested c
                                         \<and> \<not> duration_reached duration start_time (clock c)) obs)
            else 0)
           interval"
proof (induction obs arbitrary: st)
  case Nil
  then show ?case by simp
next
  case (Cons c cs)
  let ?st1 = "cycle_body cfg tgts c st"
  show ?case
  proof (cases "stop_requested c \<or> \<not> ls_monitoring st
                \<or> duration_reached duration start_time (clock c)")
    case True
    then show ?thesis
      by (auto simp: Let_def cycle_body_keeps)
  next
    case False
    then show ?thesis
      using Cons.IH [of "?st1\<lparr>sleeps := sleeps ?st1 @ [interval]\<rparr>"]
      by (simp add: Let_def cycle_body_keeps replicate_app_Cons_same)
  qed
qed

lemma monitor_loop_count_exact:
  "ls_monitoring st \<Longrightarrow>
   sample_count (monitor_loop cfg tgts interval duration start_time obs st)
     = sample_count st
       + (if tgts = [] then 0
          else length (takeWhile (\<lambda>c. \<not> stop_requested c
                                       \<and> \<not> duration_reached duration start_time (clock c)) obs)
               + (case dropWhile (\<lambda>c. \<not> stop_requested c
                                       \<and> \<not> duration_reached duration start_time (clock c)) obs of
                    [] \<Rightarrow> 0
                  | c # rest \<Rightarrow> if stop_requested c then 0 else 1))"
proof (induction obs arbitrary: st)
  case Nil
  then show ?case by simp
next
  case (Cons c cs)
  let ?st1 = "cycle_body cfg tgts c st"
  show ?case
  proof (cases "stop_requested c \<or> duration_reached duration start_time (clock c)")
    case True
    then show ?thesis
      using Cons.prems by (auto simp: Let_def cycle_body_count)
  next
    case False
    have m: "ls_monitoring (?st1\<lparr>sleeps := sleeps ?st1 @ [interval]\<rparr>)"
      using Cons.prems by (simp add: cycle_body_keeps)
    show ?thesis
      using False Cons.prems Cons.IH [OF m]
      by (simp add: Let_def cycle_body_count)
  qed
qed

text \<open>
  Claim C5, as the code has it. The loop sleeps exactly \<open>interval\<close> after each cycle that
  finds no stop request and has not reached the duration, whatever time the collection
  took, and it sleeps at no other time: the sleeps of a run are one copy of \<open>interval\<close> for
  each leading iteration of that kind. The cycle on which the duration is reached is
  counted and is followed by no sleep. So, of a run on a list of targets that is not
  empty, the cycles counted are the sleeps plus one cycle more when the run ends by the
  duration.
\<close>

theorem sleep_is_interval:
  "sleeps (monitor_loop cfg tgts interval duration start_time obs start_monitoring)
     = replicate
         (length (takeWhile (\<lambda>c. \<not> stop_requested c
                                  \<and> \<not> duration_reached duration start_time (clock c)) obs))
         interval
   \<and> (\<not> stop_requested c \<and> \<not> duration_reached duration start_time (clock c)
        \<longrightarrow> sleeps (monitor_loop cfg tgts interval duration start_time (c # cs) start_monitoring)
              = interval
                # sleeps (monitor_loop cfg tgts interval duration start_time cs start_monitoring))
   \<and> (\<not> stop_requested c \<and> duration_reached duration start_time (clock c)
        \<longrightarrow> sleeps (monitor_loop cfg tgts interval duration start_time (c # cs) start_monitoring)
              = []
            \<and> sample_count
                (monitor_loop cfg tgts interval duration start_time (c # cs) start_monitoring)
              = (if tgts = [] then 0 else 1))
   \<and> (tgts \<noteq> []
        \<longrightarrow> sample_count (monitor_loop cfg tgts interval duration start_time obs start_monitoring)
              = length (sleeps
                  (monitor_loop cfg tgts interval duration start_time obs start_monitoring))
                + (case dropWhile (\<lambda>c. \<not> stop_requested c
                                        \<and> \<not> duration_reached duration start_time (clock c)) obs of
                     [] \<Rightarrow> 0
                   | c # rest \<Rightarrow> if stop_requested c then 0 else 1))"
proof -
  have m: "ls_monitoring start_monitoring" and s: "sleeps start_monitoring = []"
    and n: "sample_count start_monitoring = 0"
    by (simp_all add: start_monitoring_def)
  have e: "sleeps (monitor_loop cfg tgts interval duration start_time os start_monitoring)
     = replicate
         (length (takeWhile (\<lambda>c. \<not> stop_requested c
                                  \<and> \<not> duration_reached duration start_time (clock c)) os))
         interval" for os
    using monitor_loop_sleeps_exact [of cfg tgts interval duration start_time os start_monitoring]
    by (simp only: m s if_True append_Nil)
  have k: "sample_count (monitor_loop cfg tgts interval duration start_time os start_monitoring)
     = (if tgts = [] then 0
        else length (takeWhile (\<lambda>c. \<not> stop_requested c
                                     \<and> \<not> duration_reached duration start_time (clock c)) os)
             + (case dropWhile (\<lambda>c. \<not> stop_requested c
                                     \<and> \<not> duration_reached duration start_time (clock c)) os of
                  [] \<Rightarrow> 0
                | c # rest \<Rightarrow> if stop_requested c then 0 else 1))" for os
    using monitor_loop_count_exact [OF m, of cfg tgts interval duration start_time os]
    by (simp only: n add_0)
  show ?thesis
    unfolding e k by simp
qed

theorem sleep_is_interval_witness:
  "sleeps (monitor_loop default_config [''foo''] 5 None 0 [quiet_cycle, quiet_cycle]
            start_monitoring) = [5, 5]
   \<and> sleeps (monitor_loop default_config [''foo''] 5 (Some 1) 0 [quiet_cycle, quiet_cycle]
            start_monitoring) = []
   \<and> sample_count (monitor_loop default_config [''foo''] 5 (Some 1) 0 [quiet_cycle, quiet_cycle]
            start_monitoring) = 1"
proof -
  have q: "\<not> stop_requested quiet_cycle" "\<not> duration_reached None 0 (clock quiet_cycle)"
    "duration_reached (Some 1) 0 (clock quiet_cycle)"
    by (simp_all add: quiet_cycle_def duration_reached_def)
  have 1: "sleeps (monitor_loop default_config [''foo''] 5 None 0 [quiet_cycle, quiet_cycle]
            start_monitoring) = [5, 5]"
    using sleep_is_interval
      [of default_config "[''foo'']" 5 None 0 "[quiet_cycle, quiet_cycle]", THEN conjunct1] q
    by (simp add: numeral_2_eq_2)
  have 2: "sleeps (monitor_loop default_config [''foo''] 5 (Some 1) 0
              (quiet_cycle # [quiet_cycle]) start_monitoring) = []
         \<and> sample_count (monitor_loop default_config [''foo''] 5 (Some 1) 0
              (quiet_cycle # [quiet_cycle]) start_monitoring)
            = (if [''foo''] = [] then 0 else 1)"
    using sleep_is_interval
      [of default_config "[''foo'']" 5 "Some 1" 0 _ quiet_cycle "[quiet_cycle]",
       THEN conjunct2, THEN conjunct2, THEN conjunct1] q
    by blast
  from 1 2 show ?thesis by simp
qed

text \<open>
  The claim as the specification words it fails: with an interval of five seconds and a
  collection that took two, the loop sleeps five seconds, not three.
\<close>

theorem sleep_not_shortened_counterexample:
  "clock quiet_cycle - cycle_began quiet_cycle = 2
   \<and> sleeps (monitor_loop default_config [''foo''] 5 None 0 [quiet_cycle] start_monitoring)
       = [5]
   \<and> sleeps (monitor_loop default_config [''foo''] 5 None 0 [quiet_cycle] start_monitoring)
       \<noteq> [max 0 (5 - (clock quiet_cycle - cycle_began quiet_cycle))]"
proof -
  have s: "sleeps (cycle_body default_config [''foo''] quiet_cycle start_monitoring) = []"
    by (simp add: cycle_body_def Let_def start_monitoring_def)
  have "sleeps (monitor_loop default_config [''foo''] 5 None 0 [quiet_cycle] start_monitoring)
       = [5]"
    by (simp add: Let_def s duration_reached_def)
       (simp add: quiet_cycle_def start_monitoring_def)
  moreover have "clock quiet_cycle - cycle_began quiet_cycle = 2"
    by (simp add: quiet_cycle_def)
  ultimately show ?thesis by simp
qed

section \<open>Snapshots of the data store\<close>

lemma map_of_map_value:
  "map_of (map (\<lambda>(t, r). (t, f r)) rs) k = map_option f (map_of rs k)"
  by (induction rs) auto

lemma update_fresh_key:
  "k \<notin> fst ` set rs \<Longrightarrow> AList.update k v rs = rs @ [(k, v)]"
  by (induction rs) auto

lemma map_lists_update:
  assumes "(tgt, r) \<in> set rs" "distinct (map fst rs)" "distinct (map snd rs)"
  shows "map (\<lambda>(t, r'). (t, (f(r := v)) r')) rs
           = AList.update tgt v (map (\<lambda>(t, r'). (t, f r')) rs)"
  using assms
proof (induction rs)
  case Nil
  then show ?case by simp
next
  case (Cons e rs)
  obtain t' r' where e: "e = (t', r')" by (cases e)
  show ?case
  proof (cases "t' = tgt")
    case True
    have r': "r' = r"
    proof (rule ccontr)
      assume "r' \<noteq> r"
      with Cons.prems(1) e have "(tgt, r) \<in> set rs" by auto
      then have "tgt \<in> fst ` set rs" by force
      with Cons.prems(2) e True show False by simp
    qed
    have "\<And>t'' r''. (t'', r'') \<in> set rs \<Longrightarrow> r'' \<noteq> r"
      using Cons.prems(3) e r' by force
    then have "map (\<lambda>(t, r'). (t, (f(r := v)) r')) rs = map (\<lambda>(t, r'). (t, f r')) rs"
      by (intro map_cong) auto
    then show ?thesis
      using True e r' by simp
  next
    case False
    with Cons.prems e have in_rs: "(tgt, r) \<in> set rs" by auto
    have "r' \<noteq> r"
      using Cons.prems(3) e in_rs by force
    then show ?thesis
      using False e Cons.IH [OF in_rs] Cons.prems by auto
  qed
qed

lemma store_of_append_sample:
  assumes "heap_ok h"
  shows "store_of (append_sample h tgt s)
           = AList.update tgt (series (store_of h) tgt @ [s]) (store_of h)"
proof -
  from assms have dk: "distinct (map fst (refs h))" and dv: "distinct (map snd (refs h))"
    and lt: "\<forall>r \<in> snd ` set (refs h). r < next_ref h"
    by (auto simp: heap_ok_def list_all_iff)
  show ?thesis
  proof (cases "map_of (refs h) tgt")
    case None
    then have notin: "tgt \<notin> fst ` set (refs h)"
      by (simp add: map_of_eq_None_iff)
    have fresh: "\<And>t r. (t, r) \<in> set (refs h) \<Longrightarrow> r \<noteq> next_ref h"
      using lt by force
    have notin': "tgt \<notin> fst ` set (map (\<lambda>(t, r). (t, lists h r)) (refs h))"
      using notin by force
    have same: "\<forall>x \<in> set (refs h).
                  (case x of (t, r) \<Rightarrow> (t, if r = next_ref h then [s] else lists h r))
                    = (case x of (t, r) \<Rightarrow> (t, lists h r))"
      using fresh by auto
    show ?thesis
      using None
      by (simp add: append_sample_def store_of_def update_fresh_key [OF notin] same
          series_def map_of_map_value update_fresh_key [OF notin'])
  next
    case (Some r)
    then have mem: "(tgt, r) \<in> set (refs h)"
      by (rule map_of_SomeD)
    show ?thesis
      using Some map_lists_update [OF mem dk dv, of "lists h" "lists h r @ [s]"]
      by (simp add: append_sample_def store_of_def series_def map_of_map_value)
  qed
qed

lemma heap_ok_append_sample:
  assumes "heap_ok h"
  shows "heap_ok (append_sample h tgt s)"
proof (cases "map_of (refs h) tgt")
  case None
  then have notin: "tgt \<notin> fst ` set (refs h)"
    by (simp add: map_of_eq_None_iff)
  from assms have lt: "\<forall>r \<in> snd ` set (refs h). r < next_ref h"
    by (auto simp: heap_ok_def list_all_iff)
  then have "next_ref h \<notin> snd ` set (refs h)" by auto
  then show ?thesis
    using None assms notin lt
    by (auto simp: append_sample_def heap_ok_def update_fresh_key [OF notin] list_all_iff
        less_Suc_eq)
next
  case (Some r)
  then show ?thesis
    using assms by (simp add: append_sample_def heap_ok_def)
qed

lemma store_of_append_batch_refs:
  "heap_ok h \<Longrightarrow>
   store_of (append_batch_refs h batch) = append_batch (store_of h) batch
   \<and> heap_ok (append_batch_refs h batch)"
  unfolding append_batch_refs_def append_batch_def
proof (induction batch arbitrary: h)
  case Nil
  then show ?case by simp
next
  case (Cons e rest)
  obtain t s where e: "e = (t, s)" by (cases e)
  from store_of_append_sample [OF Cons.prems, of t s] heap_ok_append_sample [OF Cons.prems, of t s]
    Cons.IH [of "append_sample h t s"]
  show ?case by (simp add: e)
qed

text \<open>
  Claim C4 at a concrete store. The store holds one sample for \<open>foo\<close>. A snapshot is
  taken; then a cycle appends a second sample for \<open>foo\<close>. The series that the snapshot
  shows for \<open>foo\<close> had one sample when the snapshot was returned and has two after the
  append: the snapshot shares the store's list objects.
\<close>

theorem snapshot_sees_later_append:
  "heap_ok one_series_store
   \<and> map_option length
       (snapshot_series one_series_store (get_data one_series_store) ''foo'') = Some 1
   \<and> map_option length
       (snapshot_series
          (append_batch_refs one_series_store
             [(''foo'', sample_for_target default_config absent_world ''foo'')])
          (get_data one_series_store) ''foo'') = Some 2"
  by (simp add: heap_ok_def one_series_store_def snapshot_series_def get_data_def
      append_batch_refs_def append_sample_def)

section \<open>Properties of the analysis\<close>

lemma and_then_simps [simp]:
  "and_then (Inr x) f = f x"
  "and_then (Inl e) f = Inl e"
  by (simp_all add: and_then_def)

lemma and_then_InrE:
  assumes "and_then m f = Inr y"
  obtains x where "m = Inr x" and "f x = Inr y"
  using assms by (cases m) simp_all

lemma and_then_InlE:
  assumes "and_then m f = Inl e"
  obtains "m = Inl e" | x where "m = Inr x" and "f x = Inl e"
  using assms by (cases m) simp_all

lemma py_max_eq: "xs \<noteq> [] \<Longrightarrow> py_max xs = Inr (Max (set xs))"
  by (cases xs) (simp_all add: py_max_def Max.set_eq_fold [symmetric])

lemma py_min_eq: "xs \<noteq> [] \<Longrightarrow> py_min xs = Inr (Min (set xs))"
  by (cases xs) (simp_all add: py_min_def Min.set_eq_fold [symmetric])

lemma py_round2_zero: "py_round2 0 = 0"
  by (simp add: py_round2_def)



lemma metric_stats_nonempty:
  assumes "xs \<noteq> []"
  shows "metric_stats xs =
           Inr \<lparr>st_avg = py_round2 (sum_list xs / real (length xs)),
                st_max = py_round2 (Max (set xs)),
                st_min = py_round2 (Min (set xs)),
                st_std = (if length xs < 2 then 0
                          else py_round2 (sqrt (sum_list
                                 (map (\<lambda>x. (x - sum_list xs / real (length xs))\<^sup>2) xs)
                                 / real (length xs - 1)))),
                st_data = xs\<rparr>"
proof (cases "length xs < 2")
  case True
  then show ?thesis
    using assms
    by (simp add: metric_stats_def py_mean_def py_max_eq py_min_eq py_round2_zero)
next
  case False
  then show ?thesis
    using assms
    by (simp add: metric_stats_def py_mean_def py_max_eq py_min_eq py_stdev_def Let_def)
qed


lemma parse_timestamps_length:
  "parse_timestamps parse_ts pd = Inr ts \<Longrightarrow> length ts = length pd"
  by (induction pd arbitrary: ts) (auto split: option.splits sum.splits)

lemma parse_timestamps_total:
  "list_all (\<lambda>i. parse_ts (it_timestamp i) \<noteq> None) pd
   \<Longrightarrow> parse_timestamps parse_ts pd = Inr (map (\<lambda>i. the (parse_ts (it_timestamp i))) pd)"
  by (induction pd) (auto split: option.splits sum.splits)


lemma total_seconds_between_total:
  "(utcoffset a = None) = (utcoffset b = None) \<Longrightarrow> \<exists>x. total_seconds_between b a = Inr x"
  by (cases "utcoffset a"; cases "utcoffset b") (simp_all add: total_seconds_between_def)


lemma metric_stats_total: "xs \<noteq> [] \<Longrightarrow> \<exists>s. metric_stats xs = Inr s"
  by (simp add: metric_stats_nonempty)

lemma pair_stats_total: "xs \<noteq> [] \<Longrightarrow> ys \<noteq> [] \<Longrightarrow> \<exists>r. pair_stats b xs ys = Inr r"
  using metric_stats_total [of xs] metric_stats_total [of ys]
  by (auto simp: pair_stats_def)

lemma single_stats_total: "xs \<noteq> [] \<Longrightarrow> \<exists>r. single_stats b xs = Inr r"
  using metric_stats_total [of xs] by (auto simp: single_stats_def)

lemma pair_stats_present: "pair_stats b xs ys = Inr r \<Longrightarrow> (r \<noteq> None) = b"
  by (auto simp: pair_stats_def elim!: and_then_InrE split: if_splits)

lemma single_stats_present: "single_stats b xs = Inr r \<Longrightarrow> (r \<noteq> None) = b"
  by (auto simp: single_stats_def elim!: and_then_InrE split: if_splits)

lemma py_any_map_iff: "py_any (map (get0 \<circ> f) pd) = (\<exists>i \<in> set pd. get0 (f i) \<noteq> 0)"
  by (simp add: py_any_def list_ex_iff)

lemma analyze_process_Inr:
  assumes "analyze_process parse_ts n pd = Inr a"
  shows "metric_stats (map it_cpu_percent pd) = Inr (an_cpu a)
     \<and> metric_stats (map it_memory_percent pd) = Inr (an_memory_percent a)
     \<and> metric_stats (map it_memory_mb pd) = Inr (an_memory_mb a)
     \<and> pair_stats (py_any (map (get0 \<circ> it_disk_read_bytes) pd)
                     \<or> py_any (map (get0 \<circ> it_disk_write_bytes) pd))
           (map (get0 \<circ> it_disk_read_bytes) pd) (map (get0 \<circ> it_disk_write_bytes) pd)
         = Inr (an_disk_io a)
     \<and> pair_stats (py_any (map (get0 \<circ> it_network_rx_bytes) pd)
                     \<or> py_any (map (get0 \<circ> it_network_tx_bytes) pd))
           (map (get0 \<circ> it_network_rx_bytes) pd) (map (get0 \<circ> it_network_tx_bytes) pd)
         = Inr (an_network_io a)
     \<and> pair_stats (py_any (map (get0 \<circ> it_voluntary_switches) pd)
                     \<or> py_any (map (get0 \<circ> it_involuntary_switches) pd))
           (map (get0 \<circ> it_voluntary_switches) pd)
           (map (get0 \<circ> it_involuntary_switches) pd)
         = Inr (an_context_switches a)
     \<and> single_stats (py_any (map (get0 \<circ> it_thread_count) pd))
           (map (get0 \<circ> it_thread_count) pd) = Inr (an_thread_count a)
     \<and> an_process_name a = n \<and> an_data_points a = length pd"
  using assms unfolding analyze_process_def Let_def
  by (elim and_then_InrE) auto

lemma analyze_process_steps:
  assumes "pd \<noteq> []" and "parse_timestamps parse_ts pd = Inr ts"
    and "total_seconds_between (last ts) (hd ts) = Inr dur"
  shows "\<exists>a. analyze_process parse_ts n pd = Inr a"
proof -
  from assms(1) parse_timestamps_length [OF assms(2)] have ts: "ts \<noteq> []" by auto
  obtain i0 where i0: "first pd = Inr i0"
    using assms(1) by (cases pd) (simp_all add: first_def)
  have tf: "first ts = Inr (hd ts)"
    using ts by (cases ts) (simp_all add: first_def)
  have tl: "final ts = Inr (last ts)"
    using ts by (simp add: final_def)
  have ne: "\<And>f. map f pd \<noteq> []" using assms(1) by simp
  obtain c where c: "metric_stats (map it_cpu_percent pd) = Inr c"
    using metric_stats_total [OF ne] by blast
  obtain mp where mp: "metric_stats (map it_memory_percent pd) = Inr mp"
    using metric_stats_total [OF ne] by blast
  obtain mm where mm: "metric_stats (map it_memory_mb pd) = Inr mm"
    using metric_stats_total [OF ne] by blast
  obtain disk where disk:
    "pair_stats (py_any (map (get0 \<circ> it_disk_read_bytes) pd)
                     \<or> py_any (map (get0 \<circ> it_disk_write_bytes) pd))
           (map (get0 \<circ> it_disk_read_bytes) pd) (map (get0 \<circ> it_disk_write_bytes) pd)
         = Inr disk"
    using pair_stats_total [OF ne ne] by blast
  obtain net where net:
    "pair_stats (py_any (map (get0 \<circ> it_network_rx_bytes) pd)
                     \<or> py_any (map (get0 \<circ> it_network_tx_bytes) pd))
           (map (get0 \<circ> it_network_rx_bytes) pd) (map (get0 \<circ> it_network_tx_bytes) pd)
         = Inr net"
    using pair_stats_total [OF ne ne] by blast
  obtain ctx where ctx:
    "pair_stats (py_any (map (get0 \<circ> it_voluntary_switches) pd)
                     \<or> py_any (map (get0 \<circ> it_involuntary_switches) pd))
           (map (get0 \<circ> it_voluntary_switches) pd)
           (map (get0 \<circ> it_involuntary_switches) pd)
         = Inr ctx"
    using pair_stats_total [OF ne ne] by blast
  obtain thr where thr:
    "single_stats (py_any (map (get0 \<circ> it_thread_count) pd))
           (map (get0 \<circ> it_thread_count) pd) = Inr thr"
    using single_stats_total [OF ne] by blast
  show ?thesis
    unfolding analyze_process_def Let_def
    by (simp only: assms(2,3) i0 tf tl c mp mm disk net ctx thr and_then_simps) blast
qed


lemma analyze_process_total:
  assumes "pd \<noteq> []" and "timestamps_subtract parse_ts pd"
  shows "\<exists>a. analyze_process parse_ts n pd = Inr a"
proof -
  let ?ts = "map (\<lambda>i. the (parse_ts (it_timestamp i))) pd"
  from assms(2) have all: "list_all (\<lambda>i. parse_ts (it_timestamp i) \<noteq> None) pd"
    by (simp add: timestamps_subtract_def)
  note p = parse_timestamps_total [OF all]
  have h: "hd pd \<in> set pd" and l: "last pd \<in> set pd"
    using assms(1) by simp_all
  from all h obtain a where a: "parse_ts (it_timestamp (hd pd)) = Some a"
    by (auto simp: list_all_iff)
  from all l obtain b where b: "parse_ts (it_timestamp (last pd)) = Some b"
    by (auto simp: list_all_iff)
  from assms(2) a b have ab: "(utcoffset a = None) = (utcoffset b = None)"
    by (simp add: timestamps_subtract_def)
  have "hd ?ts = a" "last ?ts = b"
    using assms(1) a b by (simp_all add: hd_map last_map)
  with total_seconds_between_total [OF ab]
  obtain dur where "total_seconds_between (last ?ts) (hd ?ts) = Inr dur" by auto
  from analyze_process_steps [OF assms(1) p this] show ?thesis .
qed




lemmas iso_eval = fromisoformat_def parse_date_def parse_hh_mm_ss_ff_def parse_offset_def
  parse_digits_def is_digit_def digit_val_def make_datetime_def valid_datetime_def
  days_in_month_def is_leap_def is_sign_def Let_def

lemma fromisoformat_examples:
  "fromisoformat ''2024-02-29T12:00:07''
     = Some \<lparr>year = 2024, month = 2, day = 29, hour = 12, minute = 0, second = 7,
             microsecond = 0, utcoffset = None\<rparr>"
  "fromisoformat ''2024-02-29T12:00:12.250000''
     = Some \<lparr>year = 2024, month = 2, day = 29, hour = 12, minute = 0, second = 12,
             microsecond = 250000, utcoffset = None\<rparr>"
  "fromisoformat ''2024-02-29T12:00:12+00:00''
     = Some \<lparr>year = 2024, month = 2, day = 29, hour = 12, minute = 0, second = 12,
             microsecond = 0, utcoffset = Some 0\<rparr>"
  "fromisoformat ''yesterday'' = None"
  by (simp_all add: iso_eval)

lemma idle_series_subtract: "timestamps_subtract fromisoformat idle_series"
  by (simp add: timestamps_subtract_def idle_series_def plain_item_def fromisoformat_examples)

lemma busy_series_subtract: "timestamps_subtract fromisoformat busy_series"
  by (simp add: timestamps_subtract_def busy_series_def plain_item_def fromisoformat_examples)

lemma pair_stats_Some:
  "pair_stats b xs ys = Inr (Some (r, w))
   \<Longrightarrow> metric_stats xs = Inr r \<and> metric_stats ys = Inr w"
  by (auto simp: pair_stats_def elim!: and_then_InrE split: if_splits)

lemma single_stats_Some:
  "single_stats b xs = Inr (Some s) \<Longrightarrow> metric_stats xs = Inr s"
  by (auto simp: single_stats_def elim!: and_then_InrE split: if_splits)

text \<open>
  Claim C7. The analysis of a series that is not empty, and whose timestamps parse and
  subtract, returns. In every analysis that is returned each optional group (disk I/O,
  network I/O, context switches, thread count) is present exactly when some record of
  the series has a value of the group that is not zero, and a group that is present
  holds the statistics of its values. The analysis reads no configuration, so a group
  whose values are all zero is absent whatever was enabled.
\<close>

theorem optional_group_present_iff:
  "(analyze_process parse_ts n pd = Inr a \<longrightarrow>
       (an_disk_io a \<noteq> None \<longleftrightarrow>
            (\<exists>i \<in> set pd. get0 (it_disk_read_bytes i) \<noteq> 0
                          \<or> get0 (it_disk_write_bytes i) \<noteq> 0))
     \<and> (an_network_io a \<noteq> None \<longleftrightarrow>
            (\<exists>i \<in> set pd. get0 (it_network_rx_bytes i) \<noteq> 0
                          \<or> get0 (it_network_tx_bytes i) \<noteq> 0))
     \<and> (an_context_switches a \<noteq> None \<longleftrightarrow>
            (\<exists>i \<in> set pd. get0 (it_voluntary_switches i) \<noteq> 0
                          \<or> get0 (it_involuntary_switches i) \<noteq> 0))
     \<and> (an_thread_count a \<noteq> None \<longleftrightarrow>
            (\<exists>i \<in> set pd. get0 (it_thread_count i) \<noteq> 0))
     \<and> (\<forall>r w. an_disk_io a = Some (r, w) \<longrightarrow>
            metric_stats (map (get0 \<circ> it_disk_read_bytes) pd) = Inr r
            \<and> metric_stats (map (get0 \<circ> it_disk_write_bytes) pd) = Inr w)
     \<and> (\<forall>r w. an_network_io a = Some (r, w) \<longrightarrow>
            metric_stats (map (get0 \<circ> it_network_rx_bytes) pd) = Inr r
            \<and> metric_stats (map (get0 \<circ> it_network_tx_bytes) pd) = Inr w)
     \<and> (\<forall>r w. an_context_switches a = Some (r, w) \<longrightarrow>
            metric_stats (map (get0 \<circ> it_voluntary_switches) pd) = Inr r
            \<and> metric_stats (map (get0 \<circ> it_involuntary_switches) pd) = Inr w)
     \<and> (\<forall>s. an_thread_count a = Some s \<longrightarrow>
            metric_stats (map (get0 \<circ> it_thread_count) pd) = Inr s))
   \<and> (pd \<noteq> [] \<and> timestamps_subtract parse_ts pd
        \<longrightarrow> (\<exists>a. analyze_process parse_ts n pd = Inr a))"
proof (intro conjI impI)
  assume "pd \<noteq> [] \<and> timestamps_subtract parse_ts pd"
  then show "\<exists>a. analyze_process parse_ts n pd = Inr a"
    using analyze_process_total by blast
next
  assume a: "analyze_process parse_ts n pd = Inr a"
  note r = analyze_process_Inr [OF a]
  have d: "(an_disk_io a \<noteq> None) =
             (py_any (map (get0 \<circ> it_disk_read_bytes) pd)
              \<or> py_any (map (get0 \<circ> it_disk_write_bytes) pd))"
    using r by (intro pair_stats_present) blast
  have nw: "(an_network_io a \<noteq> None) =
             (py_any (map (get0 \<circ> it_network_rx_bytes) pd)
              \<or> py_any (map (get0 \<circ> it_network_tx_bytes) pd))"
    using r by (intro pair_stats_present) blast
  have c: "(an_context_switches a \<noteq> None) =
             (py_any (map (get0 \<circ> it_voluntary_switches) pd)
              \<or> py_any (map (get0 \<circ> it_involuntary_switches) pd))"
    using r by (intro pair_stats_present) blast
  have t: "(an_thread_count a \<noteq> None) = py_any (map (get0 \<circ> it_thread_count) pd)"
    using r by (intro single_stats_present) blast
  show "an_disk_io a \<noteq> None \<longleftrightarrow>
            (\<exists>i \<in> set pd. get0 (it_disk_read_bytes i) \<noteq> 0
                          \<or> get0 (it_disk_write_bytes i) \<noteq> 0)"
    unfolding d py_any_map_iff by blast
  show "an_network_io a \<noteq> None \<longleftrightarrow>
            (\<exists>i \<in> set pd. get0 (it_network_rx_bytes i) \<noteq> 0
                          \<or> get0 (it_network_tx_bytes i) \<noteq> 0)"
    unfolding nw py_any_map_iff by blast
  show "an_context_switches a \<noteq> None \<longleftrightarrow>
            (\<exists>i \<in> set pd. get0 (it_voluntary_switches i) \<noteq> 0
                          \<or> get0 (it_involuntary_switches i) \<noteq> 0)"
    unfolding c py_any_map_iff by blast
  show "an_thread_count a \<noteq> None \<longleftrightarrow>
            (\<exists>i \<in> set pd. get0 (it_thread_count i) \<noteq> 0)"
    unfolding t py_any_map_iff by blast
  show "\<forall>r w. an_disk_io a = Some (r, w) \<longrightarrow>
            metric_stats (map (get0 \<circ> it_disk_read_bytes) pd) = Inr r
            \<and> metric_stats (map (get0 \<circ> it_disk_write_bytes) pd) = Inr w"
    using r by (auto dest: pair_stats_Some)
  show "\<forall>r w. an_network_io a = Some (r, w) \<longrightarrow>
            metric_stats (map (get0 \<circ> it_network_rx_bytes) pd) = Inr r
            \<and> metric_stats (map (get0 \<circ> it_network_tx_bytes) pd) = Inr w"
    using r by (auto dest: pair_stats_Some)
  show "\<forall>r w. an_context_switches a = Some (r, w) \<longrightarrow>
            metric_stats (map (get0 \<circ> it_voluntary_switches) pd) = Inr r
            \<and> metric_stats (map (get0 \<circ> it_involuntary_switches) pd) = Inr w"
    using r by (auto dest: pair_stats_Some)
  show "\<forall>s. an_thread_count a = Some s \<longrightarrow>
            metric_stats (map (get0 \<circ> it_thread_count) pd) = Inr s"
    using r by (auto dest: single_stats_Some)
qed

theorem optional_group_present_iff_witness:
  "(\<exists>a s. analyze_process fromisoformat ''foo'' busy_series = Inr a
          \<and> an_thread_count a = Some s \<and> st_avg s = 4 \<and> st_std s = 0 \<and> st_data s = [4, 4]
          \<and> an_disk_io a = None)
   \<and> (\<exists>a. analyze_process fromisoformat ''foo'' idle_series = Inr a
          \<and> an_thread_count a = None)"
proof (intro conjI)
  have ne: "busy_series \<noteq> [] \<and> timestamps_subtract fromisoformat busy_series"
    using busy_series_subtract by (simp add: busy_series_def)
  from optional_group_present_iff [of fromisoformat "''foo''" busy_series, THEN conjunct2] ne
  obtain a where a: "analyze_process fromisoformat ''foo'' busy_series = Inr a" by blast
  note g = optional_group_present_iff [of fromisoformat "''foo''" busy_series a, THEN conjunct1,
      rule_format, OF a]
  have nz: "\<exists>i \<in> set busy_series. get0 (it_thread_count i) \<noteq> 0"
    by (simp add: busy_series_def plain_item_def get0_def)
  have z: "\<not> (\<exists>i \<in> set busy_series. get0 (it_disk_read_bytes i) \<noteq> 0
                          \<or> get0 (it_disk_write_bytes i) \<noteq> 0)"
    by (simp add: busy_series_def plain_item_def get0_def)
  from g nz obtain s where s: "an_thread_count a = Some s" by blast
  from g s have "metric_stats (map (get0 \<circ> it_thread_count) busy_series) = Inr s" by blast
  then have m: "metric_stats [4, 4] = Inr s"
    by (simp add: busy_series_def plain_item_def get0_def)
  have r4: "py_round2 4 = 4" by (simp add: py_round2_def)
  from m have "s = \<lparr>st_avg = 4, st_max = 4, st_min = 4, st_std = 0, st_data = [4, 4]\<rparr>"
    by (simp add: metric_stats_nonempty r4 py_round2_zero)
  then have v: "st_avg s = 4 \<and> st_std s = 0 \<and> st_data s = [4, 4]"
    by simp
  from g z have "an_disk_io a = None" by blast
  with a s v
  show "\<exists>a s. analyze_process fromisoformat ''foo'' busy_series = Inr a
          \<and> an_thread_count a = Some s \<and> st_avg s = 4 \<and> st_std s = 0 \<and> st_data s = [4, 4]
          \<and> an_disk_io a = None"
    by blast
next
  have ne: "idle_series \<noteq> [] \<and> timestamps_subtract fromisoformat idle_series"
    using idle_series_subtract by (simp add: idle_series_def)
  from optional_group_present_iff [of fromisoformat "''foo''" idle_series, THEN conjunct2] ne
  obtain a where a: "analyze_process fromisoformat ''foo'' idle_series = Inr a" by blast
  note g = optional_group_present_iff [of fromisoformat "''foo''" idle_series a, THEN conjunct1,
      rule_format, OF a]
  have z: "\<not> (\<exists>i \<in> set idle_series. get0 (it_thread_count i) \<noteq> 0)"
    by (simp add: idle_series_def plain_item_def get0_def)
  from g z have "an_thread_count a = None" by blast
  with a show "\<exists>a. analyze_process fromisoformat ''foo'' idle_series = Inr a
          \<and> an_thread_count a = None"
    by blast
qed






section \<open>Timestamps survive their text\<close>

lemma digit_char_digit:
  assumes "k < 10"
  shows "is_digit (digit_char k)" and "digit_val (digit_char k) = k"
proof -
  from assms have "k = 0 \<or> k = 1 \<or> k = 2 \<or> k = 3 \<or> k = 4 \<or> k = 5 \<or> k = 6 \<or> k = 7
                   \<or> k = 8 \<or> k = 9"
    by arith
  then show "is_digit (digit_char k)" and "digit_val (digit_char k) = k"
    by (auto simp: is_digit_def digit_char_def digit_val_def)
qed

lemma digits_val_digit_chars:
  "list_all (\<lambda>k. k < 10) ks \<Longrightarrow>
   digits_val acc (map digit_char ks) = foldl (\<lambda>a k. 10 * a + k) acc ks"
  by (induction ks arbitrary: acc) (simp_all add: digit_char_digit)

lemma parse_digits_digit_chars:
  "list_all (\<lambda>k. k < 10) ks \<Longrightarrow>
   parse_digits (map digit_char ks) = Some (foldl (\<lambda>a k. 10 * a + k) 0 ks)"
  by (simp add: parse_digits_def digits_val_digit_chars list_all_iff digit_char_digit)

lemma parse_digits_pad2:
  assumes "n < 100"
  shows "parse_digits (pad2 n) = Some n"
proof -
  have p: "pad2 n = map digit_char [n div 10 mod 10, n mod 10]"
    by (simp add: pad2_def)
  have v: "foldl (\<lambda>a k. 10 * a + k) 0 [n div 10 mod 10, n mod 10] = n"
    using assms by simp
  have l: "list_all (\<lambda>k. k < 10) [n div 10 mod 10, n mod 10]"
    by simp
  show ?thesis
    unfolding p parse_digits_digit_chars [OF l] v ..
qed

lemma div10_step: "(m::nat) = 10 * (m div 10) + m mod 10"
  by simp

lemma parse_digits_pad4:
  assumes "n < 10000"
  shows "parse_digits (pad4 n) = Some n"
proof -
  have p: "pad4 n = map digit_char [n div 1000 mod 10, n div 100 mod 10, n div 10 mod 10,
                                    n mod 10]"
    by (simp only: pad4_def list.map)
  have d1: "n div 10 div 10 = n div 100" and d2: "n div 100 div 10 = n div 1000"
    by (simp_all add: div_mult2_eq [symmetric])
  have top: "n div 1000 mod 10 = n div 1000"
    using assms by (simp add: div_less_iff_less_mult)
  have "1000 * (n div 1000 mod 10) + 100 * (n div 100 mod 10) + 10 * (n div 10 mod 10)
          + n mod 10 = n"
    using div10_step [of n] div10_step [of "n div 10"] div10_step [of "n div 100"]
    unfolding d1 d2 top by linarith
  then have v: "foldl (\<lambda>a k. 10 * a + k) 0
                  [n div 1000 mod 10, n div 100 mod 10, n div 10 mod 10, n mod 10] = n"
    using top by (simp only: foldl.simps) simp
  have l: "list_all (\<lambda>k. k < 10)
             [n div 1000 mod 10, n div 100 mod 10, n div 10 mod 10, n mod 10]"
    by simp
  show ?thesis
    unfolding p parse_digits_digit_chars [OF l] v ..
qed

lemma parse_digits_pad6:
  assumes "n < 1000000"
  shows "parse_digits (pad6 n) = Some n"
proof -
  have p: "pad6 n = map digit_char [n div 100000 mod 10, n div 10000 mod 10,
                                    n div 1000 mod 10, n div 100 mod 10, n div 10 mod 10,
                                    n mod 10]"
    by (simp only: pad6_def list.map)
  have d1: "n div 10 div 10 = n div 100" and d2: "n div 100 div 10 = n div 1000"
    and d3: "n div 1000 div 10 = n div 10000" and d4: "n div 10000 div 10 = n div 100000"
    by (simp_all add: div_mult2_eq [symmetric])
  have top: "n div 100000 mod 10 = n div 100000"
    using assms by (simp add: div_less_iff_less_mult)
  have "100000 * (n div 100000 mod 10) + 10000 * (n div 10000 mod 10)
          + 1000 * (n div 1000 mod 10) + 100 * (n div 100 mod 10) + 10 * (n div 10 mod 10)
          + n mod 10 = n"
    using div10_step [of n] div10_step [of "n div 10"] div10_step [of "n div 100"]
      div10_step [of "n div 1000"] div10_step [of "n div 10000"]
    unfolding d1 d2 d3 d4 top by linarith
  then have v: "foldl (\<lambda>a k. 10 * a + k) 0
                  [n div 100000 mod 10, n div 10000 mod 10, n div 1000 mod 10,
                   n div 100 mod 10, n div 10 mod 10, n mod 10] = n"
    using top by (simp only: foldl.simps) simp
  have l: "list_all (\<lambda>k. k < 10)
             [n div 100000 mod 10, n div 10000 mod 10, n div 1000 mod 10,
              n div 100 mod 10, n div 10 mod 10, n mod 10]"
    by simp
  show ?thesis
    unfolding p parse_digits_digit_chars [OF l] v ..
qed

lemma parse_digits_Nil: "parse_digits [] = Some 0"
  by (simp add: parse_digits_def)


lemma length_pads [simp]: "length (pad2 n) = 2" "length (pad4 n) = 4" "length (pad6 n) = 6"
  by (simp_all add: pad2_def pad4_def pad6_def)

lemma no_sign_digit_char: "k < 10 \<Longrightarrow> \<not> is_sign (digit_char k)"
  using digit_char_digit(1) [of k] digit_not_sign [of "digit_char k"]
  by (auto simp: is_sign_def)

lemma no_sign_pads:
  "list_all (\<lambda>c. \<not> is_sign c) (pad2 n)" "list_all (\<lambda>c. \<not> is_sign c) (pad6 n)"
  by (simp_all add: pad2_def pad6_def no_sign_digit_char)

lemma parse_date_iso_date:
  assumes "year d < 10000" "month d < 100" "day d < 100"
  shows "parse_date (iso_date d) = Some (year d, month d, day d)"
proof -
  let ?s = "iso_date d"
  have p: "length ?s = 10" "?s ! 4 = CHR ''-''" "?s ! 7 = CHR ''-''"
    "take 4 ?s = pad4 (year d)" "take 2 (drop 5 ?s) = pad2 (month d)"
    "take 2 (drop 8 ?s) = pad2 (day d)"
    by (simp_all add: iso_date_def nth_append)
  show ?thesis
    unfolding parse_date_def p
    by (simp add: parse_digits_pad4 parse_digits_pad2 assms)
qed

lemma parse_time_iso_time:
  assumes "hour d < 100" "minute d < 100" "second d < 100" "microsecond d < 1000000"
  shows "parse_hh_mm_ss_ff (iso_time d) = Some (hour d, minute d, second d, microsecond d)"
proof (cases "microsecond d = 0")
  case True
  let ?s = "iso_time d"
  have p: "length ?s = 8" "?s ! 2 = CHR '':''" "?s ! 5 = CHR '':''"
    "take 2 ?s = pad2 (hour d)" "take 2 (drop 3 ?s) = pad2 (minute d)"
    "take 2 (drop 6 ?s) = pad2 (second d)" "drop 9 ?s = []"
    using True by (simp_all add: iso_time_def nth_append)
  show ?thesis
    unfolding parse_hh_mm_ss_ff_def Let_def p
    using True by (simp add: parse_digits_pad2 parse_digits_Nil assms)
next
  case False
  let ?s = "iso_time d"
  have p: "length ?s = 15" "?s ! 2 = CHR '':''" "?s ! 5 = CHR '':''" "?s ! 8 = CHR ''.''"
    "take 2 ?s = pad2 (hour d)" "take 2 (drop 3 ?s) = pad2 (minute d)"
    "take 2 (drop 6 ?s) = pad2 (second d)" "drop 9 ?s = pad6 (microsecond d)"
    using False by (simp_all add: iso_time_def nth_append)
  show ?thesis
    unfolding parse_hh_mm_ss_ff_def Let_def p
    by (simp add: parse_digits_pad2 parse_digits_pad6 assms)
qed

lemma no_sign_iso_time: "list_all (\<lambda>c. \<not> is_sign c) (iso_time d)"
  using no_sign_pads [of "hour d"] no_sign_pads [of "minute d"] no_sign_pads [of "second d"]
    no_sign_pads [of "microsecond d"]
  by (simp add: iso_time_def is_sign_def)

lemma parse_offset_format_offset:
  assumes "- 86400000000 < off" and "off < 86400000000"
  shows "parse_offset (format_offset off) = Some off"
    and "format_offset off \<noteq> []" and "is_sign (hd (format_offset off))"
proof -
  define a where "a = \<bar>off\<bar>"
  define hh where "hh = a div 3600000000"
  define r1 where "r1 = a mod 3600000000"
  define mm where "mm = r1 div 60000000"
  define r2 where "r2 = r1 mod 60000000"
  define ss where "ss = r2 div 1000000"
  define us where "us = r2 mod 1000000"
  define sg where "sg = (if off < 0 then CHR ''-'' else CHR ''+'')"
  have fo: "format_offset off
              = sg # pad2 (nat hh) @ '':'' @ pad2 (nat mm)
                  @ (if r2 \<noteq> 0
                     then '':'' @ pad2 (nat ss) @ (if us \<noteq> 0 then ''.'' @ pad6 (nat us) else [])
                     else [])"
    unfolding a_def hh_def r1_def mm_def r2_def ss_def us_def sg_def format_offset_def Let_def
    by simp
  have a0: "0 \<le> a" and a1: "a < 86400000000"
    using assms by (simp_all add: a_def)
  have e1: "a = hh * 3600000000 + r1" and b1: "0 \<le> r1" "r1 < 3600000000"
    by (simp_all add: hh_def r1_def)
  have e2: "r1 = mm * 60000000 + r2" and b2: "0 \<le> r2" "r2 < 60000000"
    by (simp_all add: mm_def r2_def)
  have e3: "r2 = ss * 1000000 + us" and b3: "0 \<le> us" "us < 1000000"
    by (simp_all add: ss_def us_def)
  have h0: "0 \<le> hh" using a0 by (simp add: hh_def pos_imp_zdiv_nonneg_iff)
  have m0: "0 \<le> mm" using b1 by (simp add: mm_def pos_imp_zdiv_nonneg_iff)
  have s0: "0 \<le> ss" using b2 by (simp add: ss_def pos_imp_zdiv_nonneg_iff)
  have h1: "hh < 24" using e1 b1 a1 by linarith
  have m1: "mm < 60" using e2 b2 b1 by linarith
  have s1: "ss < 60" using e3 b3 b2 by linarith
  have n: "nat hh < 100" "nat mm < 100" "nat ss < 100" "nat us < 1000000"
    using h0 h1 m0 m1 s0 s1 b3 by linarith+
  have i: "int (nat hh) = hh" "int (nat mm) = mm" "int (nat ss) = ss" "int (nat us) = us"
    using h0 m0 s0 b3 by simp_all
  have sa: "(if sg = CHR ''-'' then - 1 else 1) * a = off"
    by (simp add: sg_def a_def)
  show "format_offset off \<noteq> []" and "is_sign (hd (format_offset off))"
    by (simp_all add: fo sg_def is_sign_def)
  show "parse_offset (format_offset off) = Some off"
  proof (cases "r2 = 0")
    case True
    let ?b = "pad2 (nat hh) @ '':'' @ pad2 (nat mm)"
    have z: "format_offset off = sg # ?b"
      using True by (simp add: fo)
    have p: "length ?b = 5" "?b ! 2 = CHR '':''" "take 2 ?b = pad2 (nat hh)"
      "take 2 (drop 3 ?b) = pad2 (nat mm)" "take 2 (drop 6 ?b) = []" "drop 9 ?b = []"
      by (simp_all add: nth_append)
    have "parse_hh_mm_ss_ff ?b = Some (nat hh, nat mm, 0, 0)"
      unfolding parse_hh_mm_ss_ff_def Let_def p
      by (simp add: parse_digits_pad2 parse_digits_Nil n)
    moreover have "a = (hh * 3600 + mm * 60) * 1000000"
      using e1 e2 True by simp
    ultimately show ?thesis
      using sa h0 m0 s0 b3(1) by (auto simp: z parse_offset_def split: if_splits)
  next
    case False
    show ?thesis
    proof (cases "us = 0")
      case True
      let ?b = "pad2 (nat hh) @ '':'' @ pad2 (nat mm) @ '':'' @ pad2 (nat ss)"
      have z: "format_offset off = sg # ?b"
        using True False by (simp add: fo)
      have p: "length ?b = 8" "?b ! 2 = CHR '':''" "?b ! 5 = CHR '':''"
        "take 2 ?b = pad2 (nat hh)" "take 2 (drop 3 ?b) = pad2 (nat mm)"
        "take 2 (drop 6 ?b) = pad2 (nat ss)" "drop 9 ?b = []"
        by (simp_all add: nth_append)
      have "parse_hh_mm_ss_ff ?b = Some (nat hh, nat mm, nat ss, 0)"
        unfolding parse_hh_mm_ss_ff_def Let_def p
        by (simp add: parse_digits_pad2 parse_digits_Nil n)
      moreover have "a = (hh * 3600 + mm * 60 + ss) * 1000000"
        using e1 e2 e3 True by simp
      ultimately show ?thesis
        using sa h0 m0 s0 b3(1) by (auto simp: z parse_offset_def split: if_splits)
    next
      case us: False
      let ?b = "pad2 (nat hh) @ '':'' @ pad2 (nat mm) @ '':'' @ pad2 (nat ss) @ ''.''
                  @ pad6 (nat us)"
      have z: "format_offset off = sg # ?b"
        using us False by (simp add: fo)
      have p: "length ?b = 15" "?b ! 2 = CHR '':''" "?b ! 5 = CHR '':''" "?b ! 8 = CHR ''.''"
        "take 2 ?b = pad2 (nat hh)" "take 2 (drop 3 ?b) = pad2 (nat mm)"
        "take 2 (drop 6 ?b) = pad2 (nat ss)" "drop 9 ?b = pad6 (nat us)"
        by (simp_all add: nth_append)
      have "parse_hh_mm_ss_ff ?b = Some (nat hh, nat mm, nat ss, nat us)"
        unfolding parse_hh_mm_ss_ff_def Let_def p
        by (simp add: parse_digits_pad2 parse_digits_pad6 n)
      moreover have "a = (hh * 3600 + mm * 60 + ss) * 1000000 + us"
        using e1 e2 e3 by simp
      ultimately show ?thesis
        using sa h0 m0 s0 b3(1) by (auto simp: z parse_offset_def split: if_splits)
    qed
  qed
qed

lemma split_at_sign:
  assumes "list_all (\<lambda>c. \<not> is_sign c) t" and "z = [] \<or> is_sign (hd z)"
  shows "takeWhile (\<lambda>c. \<not> is_sign c) (t @ z) = t"
    and "dropWhile (\<lambda>c. \<not> is_sign c) (t @ z) = z"
proof -
  from assms(1) have a: "\<And>x. x \<in> set t \<Longrightarrow> \<not> is_sign x"
    by (simp add: list_all_iff)
  from assms(2) have tz: "takeWhile (\<lambda>c. \<not> is_sign c) z = []"
    and dz: "dropWhile (\<lambda>c. \<not> is_sign c) z = z"
    by (cases z; auto)+
  show "takeWhile (\<lambda>c. \<not> is_sign c) (t @ z) = t"
    using a by (simp add: takeWhile_append2 tz)
  show "dropWhile (\<lambda>c. \<not> is_sign c) (t @ z) = z"
    using a by (simp add: dropWhile_append2 dz)
qed

lemma length_iso: "length (iso_date d) = 10" "8 \<le> length (iso_time d)"
  by (simp_all add: iso_date_def iso_time_def)

lemma fromisoformat_isoformat:
  assumes "valid_datetime d"
  shows "fromisoformat (isoformat d) = Some d"
proof -
  from assms have r: "year d < 10000" "month d < 100" "day d < 100" "hour d < 100"
    "minute d < 100" "second d < 100" "microsecond d < 1000000"
    by (auto simp: valid_datetime_def days_in_month_def split: if_splits)
  define z where "z = (case utcoffset d of None \<Rightarrow> [] | Some off \<Rightarrow> format_offset off)"
  have iso: "isoformat d = iso_date d @ CHR ''T'' # iso_time d @ z"
    by (simp add: isoformat_def z_def)
  have zs: "z = [] \<or> is_sign (hd z)"
  proof (cases "utcoffset d")
    case None
    then show ?thesis by (simp add: z_def)
  next
    case (Some off)
    with assms have "- 86400000000 < off" "off < 86400000000"
      by (simp_all add: valid_datetime_def)
    from parse_offset_format_offset(3) [OF this] Some show ?thesis
      by (simp add: z_def)
  qed
  have parts: "\<not> length (isoformat d) < 10" "length (isoformat d) \<noteq> 10"
    "take 10 (isoformat d) = iso_date d" "drop 11 (isoformat d) = iso_time d @ z"
    using length_iso(2) [of d] by (simp_all add: iso length_iso(1))
  note sp = split_at_sign [OF no_sign_iso_time zs, of d]
  have mk: "make_datetime (year d) (month d) (day d) (hour d) (minute d) (second d)
              (microsecond d) (utcoffset d) = Some d"
    using assms by (cases d) (simp add: make_datetime_def)
  have step: "fromisoformat (isoformat d)
      = (if z = []
         then make_datetime (year d) (month d) (day d) (hour d) (minute d) (second d)
                (microsecond d) None
         else Option.bind (parse_offset z) (\<lambda>off.
                make_datetime (year d) (month d) (day d) (hour d) (minute d) (second d)
                  (microsecond d) (Some off)))"
    unfolding fromisoformat_def Let_def parts(3,4) sp
    by (simp add: parts(1,2) parse_date_iso_date parse_time_iso_time r)
  show ?thesis
  proof (cases "utcoffset d")
    case None
    then have "z = []" by (simp add: z_def)
    then show ?thesis
      using mk None by (simp add: step)
  next
    case (Some off)
    with assms have b: "- 86400000000 < off" "off < 86400000000"
      by (simp_all add: valid_datetime_def)
    have zf: "z = format_offset off" using Some by (simp add: z_def)
    have po: "parse_offset z = Some off" and zne: "z \<noteq> []"
      using parse_offset_format_offset(1,2) [OF b] by (simp_all add: zf)
    show ?thesis
      using mk Some by (simp add: step po zne)
  qed
qed

section \<open>Saving and loading\<close>

lemma load_item_save_item:
  assumes "valid_datetime (timestamp s)"
  shows "load_item (save_item s) = Inr s"
proof (cases s)
  case (fields ts tg tn p c mp mm rs vs cm ar sl sm fd th)
  have v: "fromisoformat (isoformat ts) = Some ts"
    using assms fields by (simp add: fromisoformat_isoformat)
  show ?thesis
    unfolding fields
    by (cases fd; cases th)
       (simp_all add: load_item_def save_item_def subscript_def parse_timestamp_def
         optional_field_def v)
qed

lemma series_fresh:
  assumes "k \<notin> fst ` set d"
  shows "series d k = []"
proof -
  from assms have "map_of d k = None"
    by (simp add: map_of_eq_None_iff)
  then show ?thesis
    by (simp add: series_def)
qed

lemma load_items_saved:
  assumes "list_all (\<lambda>s. valid_datetime (timestamp s)) xs" and "tgt \<notin> fst ` set d"
  shows "load_items tgt (map save_item xs) d = (None, if xs = [] then d else d @ [(tgt, xs)])"
proof -
  have gen: "list_all (\<lambda>s. valid_datetime (timestamp s)) xs \<Longrightarrow>
             load_items tgt (map save_item xs) (d @ [(tgt, ys)])
               = (None, d @ [(tgt, ys @ xs)])" for xs ys
  proof (induction xs arbitrary: ys)
    case Nil
    then show ?case by simp
  next
    case (Cons x xs)
    from assms(2) have "map_of d tgt = None"
      by (simp add: map_of_eq_None_iff)
    then have s: "series (d @ [(tgt, ys)]) tgt = ys"
      by (simp add: series_def map_add_def)
    have u: "AList.update tgt (ys @ [x]) (d @ [(tgt, ys)]) = d @ [(tgt, ys @ [x])]"
      using assms(2) by (induction d) auto
    from Cons show ?case
      by (simp add: load_item_save_item s u)
  qed
  show ?thesis
  proof (cases xs)
    case Nil
    then show ?thesis by simp
  next
    case (Cons x rest)
    with assms(1) have vx: "valid_datetime (timestamp x)"
      and vr: "list_all (\<lambda>s. valid_datetime (timestamp s)) rest"
      by simp_all
    show ?thesis
      using gen [OF vr, of "[x]"]
      by (simp add: Cons load_item_save_item [OF vx] series_fresh [OF assms(2)]
          update_fresh_key [OF assms(2)])
  qed
qed

lemma data_to_save_map:
  assumes "distinct (map fst d)"
  shows "data_to_save d = map (\<lambda>(tgt, xs). (tgt, JArr (map save_item xs))) d"
proof -
  have "distinct (map fst d) \<Longrightarrow> fst ` set acc \<inter> fst ` set d = {} \<Longrightarrow>
        fold (\<lambda>(tgt, target_data) acc.
                AList.update tgt (JArr (map save_item target_data)) acc) d acc
          = acc @ map (\<lambda>(tgt, xs). (tgt, JArr (map save_item xs))) d" for acc
  proof (induction d arbitrary: acc)
    case Nil
    then show ?case by simp
  next
    case (Cons e d)
    obtain t xs where e: "e = (t, xs)" by (cases e)
    from Cons.prems e have fresh: "t \<notin> fst ` set acc" by auto
    have disj: "fst ` set (acc @ [(t, JArr (map save_item xs))]) \<inter> fst ` set d = {}"
      using Cons.prems e by auto
    from Cons.prems have dd: "distinct (map fst d)" by simp
    show ?case
      using Cons.IH [OF dd disj] by (simp add: e update_fresh_key [OF fresh])
  qed
  from this [of "[]"] assms show ?thesis
    by (simp add: data_to_save_def)
qed

lemma load_targets_saved:
  assumes "distinct (map fst dd)"
    and "list_all (\<lambda>(t, xs). list_all (\<lambda>s. valid_datetime (timestamp s)) xs) dd"
    and "fst ` set d \<inter> fst ` set dd = {}"
  shows "load_targets (map (\<lambda>(tgt, xs). (tgt, JArr (map save_item xs))) dd) d
           = (None, d @ filter (\<lambda>(t, xs). xs \<noteq> []) dd)"
  using assms
proof (induction dd arbitrary: d)
  case Nil
  then show ?case by simp
next
  case (Cons e dd)
  obtain t xs where e: "e = (t, xs)" by (cases e)
  from Cons.prems e have fresh: "t \<notin> fst ` set d"
    and vx: "list_all (\<lambda>s. valid_datetime (timestamp s)) xs"
    and dist: "distinct (map fst dd)"
    and vr: "list_all (\<lambda>(t, xs). list_all (\<lambda>s. valid_datetime (timestamp s)) xs) dd"
    and tn: "t \<notin> fst ` set dd"
    by auto
  let ?d1 = "if xs = [] then d else d @ [(t, xs)]"
  have disj: "fst ` set ?d1 \<inter> fst ` set dd = {}"
    using Cons.prems(3) e tn by auto
  have it: "py_iter (JArr (map save_item xs)) = Inr (map save_item xs)"
    by (simp add: py_iter_def)
  show ?case
    using Cons.IH [OF dist vr disj] load_items_saved [OF vx fresh]
    by (simp add: e it)
qed

lemma series_filter_nonempty:
  "distinct (map fst d) \<Longrightarrow> series (filter (\<lambda>(t, xs). xs \<noteq> []) d) k = series d k"
proof (induction d)
  case Nil
  then show ?case by simp
next
  case (Cons e d)
  obtain t xs where e: "e = (t, xs)" by (cases e)
  from Cons.prems e have fresh: "t \<notin> fst ` set d" and dist: "distinct (map fst d)"
    by auto
  note ih = Cons.IH [OF dist]
  show ?case
  proof (cases "xs = []")
    case True
    show ?thesis
    proof (cases "k = t")
      case True
      with \<open>xs = []\<close> ih series_fresh [OF fresh] show ?thesis
        by (simp add: e) (simp add: series_def)
    next
      case False
      with \<open>xs = []\<close> ih show ?thesis
        by (simp add: e) (simp add: series_def)
    qed
  next
    case False
    with ih show ?thesis
      by (simp add: e) (simp add: series_def)
  qed
qed

lemma foo_monitor_ok:
  "distinct (map fst (mon_data foo_monitor))"
  "list_all (\<lambda>(t, xs). list_all (\<lambda>s. valid_datetime (timestamp s)) xs) (mon_data foo_monitor)"
  "list_all (\<lambda>(t, xs). xs \<noteq> []) (mon_data foo_monitor)"
  by (simp_all add: foo_monitor_def foo_sample_def create_zero_data_def absent_world_def
      noon_def valid_datetime_def days_in_month_def is_leap_def)

lemma load_after_save:
  assumes "distinct (map fst (mon_data m))"
    and "list_all (\<lambda>(t, xs). list_all (\<lambda>s. valid_datetime (timestamp s)) xs) (mon_data m)"
    and "writable fs fname" and "fname \<noteq> []"
  shows "save_data_to_file m fs t (Some fname)
           = (Some fname, m,
              fs\<lparr>contents := (contents fs)(fname \<mapsto> Document (JObj (data_to_save (mon_data m))))\<rparr>)"
    and "load_data_from_file m'
           (fs\<lparr>contents := (contents fs)(fname \<mapsto> Document (JObj (data_to_save (mon_data m))))\<rparr>)
           fname
         = (True, m'\<lparr>mon_data := filter (\<lambda>(t, xs). xs \<noteq> []) (mon_data m)\<rparr>)"
proof -
  show "save_data_to_file m fs t (Some fname)
           = (Some fname, m,
              fs\<lparr>contents := (contents fs)(fname \<mapsto> Document (JObj (data_to_save (mon_data m))))\<rparr>)"
    using assms(3,4) by (simp add: save_data_to_file_def Let_def)
  have "load_targets (data_to_save (mon_data m)) []
          = (None, [] @ filter (\<lambda>(t, xs). xs \<noteq> []) (mon_data m))"
    unfolding data_to_save_map [OF assms(1)]
    by (rule load_targets_saved [OF assms(1,2)]) simp
  then show "load_data_from_file m'
           (fs\<lparr>contents := (contents fs)(fname \<mapsto> Document (JObj (data_to_save (mon_data m))))\<rparr>)
           fname
         = (True, m'\<lparr>mon_data := filter (\<lambda>(t, xs). xs \<noteq> []) (mon_data m)\<rparr>)"
    by (simp add: load_data_from_file_def)
qed

lemma optional_field_save_item:
  "optional_field (save_item s) ''fd_count'' = fd_count s"
  "optional_field (save_item s) ''thread_count'' = thread_count s"
  by (cases "fd_count s"; cases "thread_count s";
      simp add: optional_field_def save_item_def)+

text \<open>
  Claim C3. A monitor whose data is a dictionary of samples saves it to a writable file;
  any monitor that then loads the file gets \<open>True\<close> and, for every target, the series
  that was saved, sample for sample and field for field (the timestamps through
  \<open>isoformat\<close> and \<open>fromisoformat\<close>). When no series is empty the loaded mapping is the
  saved mapping. A record is written with the key \<open>fd_count\<close> or \<open>thread_count\<close> exactly
  when the sample has the field, and loading the record of a sample gives that sample
  back, so a field that was absent stays absent.
\<close>

theorem save_load_round_trip:
  assumes "distinct (map fst (mon_data m))"
    and "list_all (\<lambda>(t, xs). list_all (\<lambda>s. valid_datetime (timestamp s)) xs) (mon_data m)"
    and "writable fs fname" and "fname \<noteq> []"
  shows "fst (save_data_to_file m fs t (Some fname)) = Some fname
       \<and> fst (load_data_from_file m'
                (snd (snd (save_data_to_file m fs t (Some fname)))) fname) = True
       \<and> series (mon_data (snd (load_data_from_file m'
                (snd (snd (save_data_to_file m fs t (Some fname)))) fname))) k
           = series (mon_data m) k
       \<and> (list_all (\<lambda>(t, xs). xs \<noteq> []) (mon_data m)
            \<longrightarrow> mon_data (snd (load_data_from_file m'
                   (snd (snd (save_data_to_file m fs t (Some fname)))) fname))
                = mon_data m)
       \<and> (valid_datetime (timestamp s) \<longrightarrow> load_item (save_item s) = Inr s)
       \<and> optional_field (save_item s) ''fd_count'' = fd_count s
       \<and> optional_field (save_item s) ''thread_count'' = thread_count s"
proof -
  note ls = load_after_save(1) [OF assms, of t] load_after_save(2) [OF assms, of m']
  have f: "list_all (\<lambda>(t, xs). xs \<noteq> []) (mon_data m)
             \<Longrightarrow> filter (\<lambda>(t, xs). xs \<noteq> []) (mon_data m) = mon_data m"
    by (simp add: list_all_iff)
  show ?thesis
    by (simp add: ls series_filter_nonempty [OF assms(1)] f load_item_save_item
        optional_field_save_item)
qed

theorem save_load_round_trip_witness:
  "mon_data (snd (load_data_from_file foo_monitor
      (snd (snd (save_data_to_file foo_monitor empty_disk noon (Some ''x.json'')))) ''x.json''))
     = mon_data foo_monitor"
proof -
  have w: "writable empty_disk ''x.json''" and n: "''x.json'' \<noteq> []"
    by (simp_all add: empty_disk_def)
  from save_load_round_trip [OF foo_monitor_ok(1) foo_monitor_ok(2) w n, of noon foo_monitor]
    foo_monitor_ok(3)
  show ?thesis by blast
qed

text \<open>
  Claim C9, as the code has it. A save never changes the data in memory, and it returns
  no file name exactly when the file cannot be written. A load returns \<open>True\<close> exactly
  when the file holds a JSON object all of whose records convert; when the file cannot be
  opened or does not parse, it returns \<open>False\<close> and the data in memory is what it was.
\<close>

theorem persistence_failure_surfaced:
  "fst (snd (save_data_to_file m fs t f)) = m
   \<and> (fst (save_data_to_file m fs t f) = None \<longleftrightarrow>
        \<not> writable fs (case f of Some x \<Rightarrow> if x \<noteq> [] then x else default_filename m t
                                | None \<Rightarrow> default_filename m t))
   \<and> (fst (save_data_to_file m fs t f) = None \<longrightarrow> snd (snd (save_data_to_file m fs t f)) = fs)
   \<and> (contents fs fname = None \<or> contents fs fname = Some Garbage
        \<longrightarrow> load_data_from_file m fs fname = (False, m))
   \<and> (fst (load_data_from_file m fs fname) \<longleftrightarrow>
        (\<exists>kvs d. contents fs fname = Some (Document (JObj kvs))
                  \<and> load_targets kvs [] = (None, d)))"
proof (intro conjI)
  show "fst (snd (save_data_to_file m fs t f)) = m"
    by (simp add: save_data_to_file_def Let_def)
  show "fst (save_data_to_file m fs t f) = None \<longleftrightarrow>
        \<not> writable fs (case f of Some x \<Rightarrow> if x \<noteq> [] then x else default_filename m t
                                | None \<Rightarrow> default_filename m t)"
    by (simp add: save_data_to_file_def Let_def)
  show "fst (save_data_to_file m fs t f) = None \<longrightarrow> snd (snd (save_data_to_file m fs t f)) = fs"
    by (simp add: save_data_to_file_def Let_def)
  show "contents fs fname = None \<or> contents fs fname = Some Garbage
        \<longrightarrow> load_data_from_file m fs fname = (False, m)"
    by (auto simp: load_data_from_file_def)
  show "fst (load_data_from_file m fs fname) \<longleftrightarrow>
        (\<exists>kvs d. contents fs fname = Some (Document (JObj kvs))
                  \<and> load_targets kvs [] = (None, d))"
    by (auto simp: load_data_from_file_def
        split: option.splits file_content.splits json.splits prod.splits)
qed

theorem persistence_failure_surfaced_witness:
  "load_data_from_file foo_monitor empty_disk ''x.json'' = (False, foo_monitor)
   \<and> mon_data (fst (snd (save_data_to_file foo_monitor empty_disk noon None)))
       = mon_data foo_monitor"
proof -
  have c: "contents empty_disk ''x.json'' = None"
    by (simp add: empty_disk_def)
  note p = persistence_failure_surfaced [of foo_monitor empty_disk noon None "''x.json''"]
  from p c have 1: "load_data_from_file foo_monitor empty_disk ''x.json'' = (False, foo_monitor)"
    by blast
  from p have "fst (snd (save_data_to_file foo_monitor empty_disk noon None)) = foo_monitor"
    by blast
  with 1 show ?thesis by simp
qed

text \<open>
  The claim as the specification words it fails for a load that fails after the file
  was parsed: the file \<open>data.json\<close> holds a record without fields, the load returns
  \<open>False\<close>, and the data that was in memory is gone.
\<close>

theorem load_failure_clears_data_counterexample:
  "load_data_from_file foo_monitor broken_disk ''data.json''
     = (False, foo_monitor\<lparr>mon_data := []\<rparr>)
   \<and> mon_data (snd (load_data_from_file foo_monitor broken_disk ''data.json''))
       \<noteq> mon_data foo_monitor"
proof -
  have "load_data_from_file foo_monitor broken_disk ''data.json''
     = (False, foo_monitor\<lparr>mon_data := []\<rparr>)"
    by (simp add: load_data_from_file_def broken_disk_def py_iter_def load_item_def
        subscript_def)
  then show ?thesis
    by (simp add: foo_monitor_def)
qed

end
